theory Spec2Isabelle
  imports Main "HOL-Library.Signed_Division"
begin

section \<open>Go integers\<close>

text \<open>
  Go's \<open>int\<close> is a 64-bit two's-complement integer on the platforms the server is built
  for. A value is an \<open>int\<close> in the range of \<open>is_int64\<close>; every arithmetic operation of
  the source is followed by \<open>wrap64\<close>, which is what the machine does on overflow.
  Go's \<open>/\<close> truncates towards zero (\<open>sdiv\<close>).
\<close>

definition is_int64 :: "int \<Rightarrow> bool" where
  "is_int64 x = (- (2 ^ 63) \<le> x \<and> x < 2 ^ 63)"

definition wrap64 :: "int \<Rightarrow> int" where
  "wrap64 x = (x + 2 ^ 63) mod 2 ^ 64 - 2 ^ 63"

definition go_sub :: "int \<Rightarrow> int \<Rightarrow> int" where
  "go_sub a b = wrap64 (a - b)"

definition go_add :: "int \<Rightarrow> int \<Rightarrow> int" where
  "go_add a b = wrap64 (a + b)"

definition go_mul :: "int \<Rightarrow> int \<Rightarrow> int" where
  "go_mul a b = wrap64 (a * b)"

definition go_div :: "int \<Rightarrow> int \<Rightarrow> int" where
  "go_div a b = wrap64 (a sdiv b)"

section \<open>Pagination parameters (core/params.go)\<close>

definition DefaultPageSize :: int where
  "DefaultPageSize = 100"

record ListParams =
  OrderBy :: string
  Limit :: int
  Offset :: int

text \<open>The page value built by \<open>util.NewPage(number, size)\<close>.\<close>

record Page =
  Number :: int
  Size :: int

definition NewPage :: "int \<Rightarrow> int \<Rightarrow> Page" where
  "NewPage number sz = \<lparr>Number = number, Size = sz\<rparr>"

text \<open>
  \<open>NewListParams\<close> takes \<open>orderBy\<close> but the struct literal it returns sets only \<open>Limit\<close>
  and \<open>Offset\<close>, so \<open>OrderBy\<close> is the empty string.
\<close>

definition NewListParams :: "string \<Rightarrow> int \<Rightarrow> int \<Rightarrow> ListParams" where
  "NewListParams orderBy page pageSize =
     (let page1 = (if page < 1 then 1 else page);
          pageSize1 = (if pageSize \<le> 0 then DefaultPageSize else pageSize)
      in \<lparr>OrderBy = [], Limit = pageSize1, Offset = go_mul (go_sub page1 1) pageSize1\<rparr>)"

definition ListParams_Page :: "ListParams \<Rightarrow> Page" where
  "ListParams_Page lp =
     (let size0 = Limit lp;
          size1 = (if size0 \<le> 0 then DefaultPageSize else size0);
          number = go_add (go_div (Offset lp) size1) 1
      in NewPage number size1)"

section \<open>Strings, errors, keys\<close>

text \<open>
  A Go \<open>error\<close> is modelled by its message (\<open>err.Error()\<close>), so that
  \<open>fmt.Errorf("...: %s", err.Error())\<close> is string concatenation. A \<open>datastore.Key\<close> is
  modelled by its \<open>String()\<close>; the zero key is the empty string.
\<close>

type_synonym error = string
type_synonym key = string

definition HasSuffix :: "string \<Rightarrow> string \<Rightarrow> bool" where
  "HasSuffix s suffix =
     (length suffix \<le> length s \<and> drop (length s - length suffix) s = suffix)"

definition TrimSuffix :: "string \<Rightarrow> string \<Rightarrow> string" where
  "TrimSuffix s suffix =
     (if HasSuffix s suffix then take (length s - length suffix) s else s)"

text \<open>\<open>strings.Trim(s, "/")\<close>: every leading and trailing slash is removed.\<close>

definition Trim_slash :: "string \<Rightarrow> string" where
  "Trim_slash s =
     rev (dropWhile (\<lambda>c. c = CHR ''/'') (rev (dropWhile (\<lambda>c. c = CHR ''/'') s)))"

definition Contains :: "string \<Rightarrow> string \<Rightarrow> bool" where
  "Contains s substr =
     list_ex (\<lambda>i. take (length substr) (drop i s) = substr) [0 ..< Suc (length s)]"

definition ErrNotFound :: error where
  "ErrNotFound = ''repo: not found''"

definition ErrNameRequired :: error where
  "ErrNameRequired = ''repo: name is required''"

definition ErrNameTaken :: error where
  "ErrNameTaken = ''repo: name already in use''"

definition ErrRepoEmpty :: error where
  "ErrRepoEmpty = ''repo: this repo contains no datasets''"

section \<open>Datasets and references\<close>

text \<open>
  \<open>dataset.Structure\<close> and \<open>dataset.Dataset\<close> are types of the dataset library; the
  records hold the fields the request handlers read and write.
\<close>

record Structure =
  Format :: string
  FieldNames :: "string list"

record Dataset =
  Title :: string
  Timestamp :: nat
  Data :: string
  Length :: int
  Previous :: key
  DownloadURL :: string
  AccrualPeriodicity :: string
  Structure :: "Structure option"

text \<open>The zero value \<open>&dataset.Dataset{}\<close>.\<close>

definition empty_Dataset :: Dataset where
  "empty_Dataset =
     \<lparr>Title = [], Timestamp = 0, Data = [], Length = 0, Previous = [], DownloadURL = [],
      AccrualPeriodicity = [], Structure = None\<rparr>"

definition empty_Structure :: Structure where
  "empty_Structure = \<lparr>Format = [], FieldNames = []\<rparr>"

record DatasetRef =
  Name :: string
  Path :: key
  Dataset :: "Dataset option"

definition empty_DatasetRef :: DatasetRef where
  "empty_DatasetRef = \<lparr>Name = [], Path = [], Dataset = None\<rparr>"

section \<open>The naming store\<close>

text \<open>
  Modelled from the spec: the implementations of the \<open>Namestore\<close> interface of
  \<open>repo/repo.go\<close> (the in-memory and the filesystem one) are not among the sources.
  Section 4.2 of the spec: a name is valid when it matches \<open>[A-Za-z_][A-Za-z0-9_]*\<close>;
  \<open>PutName\<close> fails if the name is invalid or already bound; \<open>GetPath\<close> and \<open>GetName\<close>
  are exact-match lookups, \<open>GetName\<close> returning the empty name and no error when no name
  is bound to the path; \<open>DeleteName\<close> removes a binding. The bindings are kept in
  insertion order. Whether \<open>DeleteName\<close> of an absent name is a no-op or a not-found
  error is left open by the spec: the model takes the choice as the flag \<open>strict\<close>.
  The spec gives no message for the invalid-name error; \<open>ErrInvalidName\<close> stands for it.
\<close>

type_synonym namestore = "(string \<times> key) list"

definition is_letter :: "char \<Rightarrow> bool" where
  "is_letter c =
     (let n = (of_char c :: nat) in (97 \<le> n \<and> n \<le> 122) \<or> (65 \<le> n \<and> n \<le> 90))"

definition is_digit :: "char \<Rightarrow> bool" where
  "is_digit c = (let n = (of_char c :: nat) in 48 \<le> n \<and> n \<le> 57)"

definition ValidDatasetName :: "string \<Rightarrow> bool" where
  "ValidDatasetName n =
     (case n of
        [] \<Rightarrow> False
      | c # cs \<Rightarrow> (is_letter c \<or> c = CHR ''_'')
            \<and> list_all (\<lambda>x. is_letter x \<or> is_digit x \<or> x = CHR ''_'') cs)"

definition ErrInvalidName :: error where
  "ErrInvalidName = ''repo: invalid name''"

definition GetPath :: "namestore \<Rightarrow> string \<Rightarrow> error + key" where
  "GetPath ns n = (case map_of ns n of None \<Rightarrow> Inl ErrNotFound | Some p \<Rightarrow> Inr p)"

definition GetName :: "namestore \<Rightarrow> key \<Rightarrow> string \<times> error option" where
  "GetName ns p =
     (case filter (\<lambda>b. snd b = p) ns of [] \<Rightarrow> ([], None) | b # _ \<Rightarrow> (fst b, None))"

definition PutName :: "namestore \<Rightarrow> string \<Rightarrow> key \<Rightarrow> error option \<times> namestore" where
  "PutName ns n p =
     (if \<not> ValidDatasetName n then (Some ErrInvalidName, ns)
      else if map_of ns n \<noteq> None then (Some ErrNameTaken, ns)
      else (None, ns @ [(n, p)]))"

definition DeleteName :: "bool \<Rightarrow> namestore \<Rightarrow> string \<Rightarrow> error option \<times> namestore" where
  "DeleteName strict ns n =
     (if strict \<and> map_of ns n = None then (Some ErrNotFound, ns)
      else (None, filter (\<lambda>b. fst b \<noteq> n) ns))"

section \<open>The repository and its collaborators\<close>

text \<open>
  A repository is its naming store together with the state \<open>'s\<close> of everything behind
  the \<open>Store()\<close>, \<open>Datasets\<close> and network interfaces. The operations on that state belong
  to other packages (content store, dataset file system, validation, format detection,
  the clock); they are the fields of \<open>env\<close>. Each takes the state and returns the new
  one, so that two calls with the same arguments may answer differently.
\<close>

record 's Repo =
  names :: namestore
  backing :: 's

text \<open>
  An \<open>io.Reader\<close> is what \<open>ioutil.ReadAll\<close> would return for it: the bytes or an error.
  A nil reader is \<open>None\<close>.
\<close>

type_synonym reader = "error + string"

record 's env =
  delete_absent_fails :: bool
  Namespace :: "namestore \<Rightarrow> 's \<Rightarrow> int \<Rightarrow> int \<Rightarrow> (error + DatasetRef list) \<times> 's"
  LoadDataset :: "'s \<Rightarrow> key \<Rightarrow> (error + Dataset) \<times> 's"
  SaveDataset :: "'s \<Rightarrow> Dataset \<Rightarrow> bool \<Rightarrow> (error + key) \<times> 's"
  store_Put :: "'s \<Rightarrow> string \<Rightarrow> string \<Rightarrow> bool \<Rightarrow> (error + key) \<times> 's"
  Unpin :: "('s \<Rightarrow> key \<Rightarrow> bool \<Rightarrow> error option \<times> 's) option"
  PutDataset :: "'s \<Rightarrow> key \<Rightarrow> Dataset \<Rightarrow> error option \<times> 's"
  GetDataset :: "'s \<Rightarrow> key \<Rightarrow> (error + Dataset) \<times> 's"
  HasPath :: "namestore \<Rightarrow> 's \<Rightarrow> key \<Rightarrow> (bool \<times> error option) \<times> 's"
  http_Get :: "'s \<Rightarrow> string \<Rightarrow> (error + reader) \<times> 's"
  Now :: "'s \<Rightarrow> nat \<times> 's"
  NewKey :: "string \<Rightarrow> key"
  RefType :: "string \<Rightarrow> string \<times> string"
  PackageFileDataset :: string
  filepath_Base :: "string \<Rightarrow> string"
  ValidName :: "string \<Rightarrow> error option"
  ExtensionDataFormat :: "string \<Rightarrow> error + string"
  validate_DataFormat :: "string \<Rightarrow> string \<Rightarrow> error option"
  detect_FromReader :: "string \<Rightarrow> string \<Rightarrow> error + Structure"
  validate_Structure :: "Structure \<Rightarrow> error option"
  validate_Dataset :: "Dataset \<Rightarrow> error option"
  Camelize :: "string \<Rightarrow> string"
  decode_metadata :: "string \<Rightarrow> Dataset \<Rightarrow> error + Dataset"
  Structure_Assign :: "Structure \<Rightarrow> Structure list \<Rightarrow> Structure"
  Dataset_Assign :: "Dataset \<Rightarrow> Dataset list \<Rightarrow> Dataset"

section \<open>Dual dispatch\<close>

text \<open>
  A request handler holds a repository or a remote-procedure client. An operation either
  hands \<open>(method, params, res)\<close> to the client (\<open>Forwarded\<close>: the call is the result, the
  remote side is not modelled), panics on a nil pointer, or runs locally and returns.
\<close>

type_synonym rpc_client = nat

datatype ('p, 'r, 'a) outcome =
    Forwarded rpc_client string 'p 'r
  | Panic
  | Local 'a

text \<open>What a call returned, read off its outcome: the error and, for the operations that
  return a reference, the reference and the naming store of the handler's repository.\<close>

definition returned_error :: "('p, 'r, error option \<times> 'a) outcome \<Rightarrow> error option" where
  "returned_error out = (case out of Local x \<Rightarrow> fst x | _ \<Rightarrow> None)"

definition is_Local :: "('p, 'r, 'a) outcome \<Rightarrow> bool" where
  "is_Local out = (case out of Local x \<Rightarrow> True | _ \<Rightarrow> False)"

record 's DatasetRequests =
  repo :: "'s Repo option"
  cli :: "rpc_client option"

text \<open>\<open>NewDatasetRequests\<close> panics (\<open>None\<close>) when given both a repository and a client.\<close>

definition NewDatasetRequests ::
  "'s Repo option \<Rightarrow> rpc_client option \<Rightarrow> 's DatasetRequests option" where
  "NewDatasetRequests r c =
     (if r \<noteq> None \<and> c \<noteq> None then None else Some \<lparr>repo = r, cli = c\<rparr>)"

record 's HistoryRequests =
  hrepo :: "'s Repo option"
  hcli :: "rpc_client option"

text \<open>
  \<open>NewHistoryRequests\<close> returns \<open>&HistoryRequests{repo: r}\<close>: the \<open>cli\<close> field is not set
  and keeps its zero value, nil.
\<close>

definition NewHistoryRequests ::
  "'s Repo option \<Rightarrow> rpc_client option \<Rightarrow> 's HistoryRequests option" where
  "NewHistoryRequests r c =
     (if r \<noteq> None \<and> c \<noteq> None then None else Some \<lparr>hrepo = r, hcli = None\<rparr>)"

definition with_backing :: "'s DatasetRequests \<Rightarrow> 's Repo \<Rightarrow> 's \<Rightarrow> 's DatasetRequests" where
  "with_backing r w s = r\<lparr>repo := Some (w\<lparr>backing := s\<rparr>)\<rparr>"

definition with_repo ::
  "'s DatasetRequests \<Rightarrow> namestore \<Rightarrow> 's \<Rightarrow> 's DatasetRequests" where
  "with_repo r ns s = r\<lparr>repo := Some \<lparr>names = ns, backing = s\<rparr>\<rparr>"

definition returned_ref ::
  "('p, 'r, error option \<times> DatasetRef \<times> 's DatasetRequests) outcome \<Rightarrow> DatasetRef option"
  where
  "returned_ref out = (case out of Local x \<Rightarrow> Some (fst (snd x)) | _ \<Rightarrow> None)"

definition names_after ::
  "('p, 'r, error option \<times> DatasetRef \<times> 's DatasetRequests) outcome \<Rightarrow> namestore" where
  "names_after out =
     (case out of
        Local x \<Rightarrow> (case repo (snd (snd x)) of Some w \<Rightarrow> names w | None \<Rightarrow> [])
      | _ \<Rightarrow> [])"

section \<open>DatasetRequests.List\<close>

text \<open>
  The loop of \<open>List\<close> over the namespace page: entry \<open>i\<close> is loaded, a failed load is
  tried one extra time, and the loop stops at index \<open>Limit\<close>. The loader is a parameter
  so that the loads can be counted.
\<close>

fun List_hydrate ::
  "('s \<Rightarrow> key \<Rightarrow> (error + Dataset) \<times> 's) \<Rightarrow> int \<Rightarrow> int \<Rightarrow> DatasetRef list \<Rightarrow> 's
     \<Rightarrow> (error + DatasetRef list) \<times> 's" where
  "List_hydrate load limit i [] s = (Inr [], s)"
| "List_hydrate load limit i (ref # rest) s =
     (if i \<ge> limit then (Inr (ref # rest), s)
      else
        (case load s (Path ref) of
           (Inr ds, s1) \<Rightarrow>
             (case List_hydrate load limit (i + 1) rest s1 of
                (Inl e, s2) \<Rightarrow> (Inl e, s2)
              | (Inr refs, s2) \<Rightarrow> (Inr (ref\<lparr>Dataset := Some ds\<rparr> # refs), s2))
         | (Inl err, s1) \<Rightarrow>
             (case load s1 (Path ref) of
                (Inl err2, s2) \<Rightarrow>
                  (Inl (''error loading path: '' @ Path ref @ '', err: '' @ err2), s2)
              | (Inr ds, s2) \<Rightarrow>
                  (case List_hydrate load limit (i + 1) rest s2 of
                     (Inl e, s3) \<Rightarrow> (Inl e, s3)
                   | (Inr refs, s3) \<Rightarrow> (Inr (ref\<lparr>Dataset := Some ds\<rparr> # refs), s3)))))"

text \<open>
  The local result of \<open>List\<close>: the error, the parameter struct (which \<open>List\<close> writes
  through its pointer), the content of \<open>*res\<close>, and the handler.
\<close>

definition DatasetRequests_List ::
  "'s env \<Rightarrow> 's DatasetRequests \<Rightarrow> ListParams \<Rightarrow> DatasetRef list
     \<Rightarrow> (ListParams, DatasetRef list,
         error option \<times> ListParams \<times> DatasetRef list \<times> 's DatasetRequests) outcome" where
  "DatasetRequests_List E r p res =
     (case cli r of
        Some c \<Rightarrow> Forwarded c ''DatasetRequests.List'' p res
      | None \<Rightarrow>
          (case repo r of
             None \<Rightarrow> Panic
           | Some w \<Rightarrow>
               (let p1 = (if Limit p \<le> 0 then p\<lparr>Limit := 25\<rparr> else p);
                    p2 = (if Offset p1 < 0 then p1\<lparr>Offset := 0\<rparr> else p1)
                in
                  (case Namespace E (names w) (backing w) (Limit p2) (Offset p2) of
                     (Inl err, s1) \<Rightarrow>
                       Local (Some (''error getting namespace: '' @ err), p2, res,
                              with_backing r w s1)
                   | (Inr replies, s1) \<Rightarrow>
                       (case List_hydrate (LoadDataset E) (Limit p2) 0 replies s1 of
                          (Inl err, s2) \<Rightarrow> Local (Some err, p2, res, with_backing r w s2)
                        | (Inr refs, s2) \<Rightarrow> Local (None, p2, refs, with_backing r w s2))))))"

text \<open>A loader that also counts how often it is called.\<close>

definition counted ::
  "('s \<Rightarrow> key \<Rightarrow> (error + Dataset) \<times> 's)
     \<Rightarrow> ('s \<times> nat) \<Rightarrow> key \<Rightarrow> (error + Dataset) \<times> ('s \<times> nat)" where
  "counted load sn k = (case load (fst sn) k of (x, s1) \<Rightarrow> (x, (s1, Suc (snd sn))))"

section \<open>HistoryRequests.Log\<close>

record LogParams = ListParams +
  LogPath :: key

text \<open>
  The \<open>for\<close> loop of \<open>Log\<close>. It has no bound of its own, so it is a partial function:
  \<open>None\<close> is a walk that never returns. \<open>limit--\<close> is Go arithmetic.
\<close>

partial_function (option) Log_loop ::
  "'s env \<Rightarrow> 's \<Rightarrow> int \<Rightarrow> DatasetRef \<Rightarrow> DatasetRef list
     \<Rightarrow> ((error + DatasetRef list) \<times> 's) option" where
  "Log_loop E s limit ref log =
     (case LoadDataset E s (Path ref) of
        (Inl err, s1) \<Rightarrow> Some (Inl err, s1)
      | (Inr ds, s1) \<Rightarrow>
          (let ref1 = ref\<lparr>Dataset := Some ds\<rparr>;
               log1 = log @ [ref1];
               limit1 = go_sub limit 1
           in if limit1 = 0 \<or> Previous ds = [] then Some (Inr log1, s1)
              else Log_loop E s1 limit1
                     \<lparr>Name = [], Path = NewKey E (snd (RefType E (Previous ds))), Dataset = None\<rparr>
                     log1))"

definition HistoryRequests_Log ::
  "'s env \<Rightarrow> 's HistoryRequests \<Rightarrow> LogParams \<Rightarrow> DatasetRef list
     \<Rightarrow> (LogParams, DatasetRef list,
         error option \<times> DatasetRef list \<times> 's HistoryRequests) outcome option" where
  "HistoryRequests_Log E d params res =
     (case hcli d of
        Some c \<Rightarrow> Some (Forwarded c ''HistoryRequests.Log'' params res)
      | None \<Rightarrow>
          (if LogPath params = [] then Some (Local (Some ''path is required'', res, d))
           else
             (case hrepo d of
                None \<Rightarrow> Some Panic
              | Some w \<Rightarrow>
                  (case Log_loop E (backing w) (Limit params)
                          \<lparr>Name = [], Path = LogPath params, Dataset = None\<rparr> [] of
                     None \<Rightarrow> None
                   | Some (Inl err, s1) \<Rightarrow>
                       Some (Local (Some err, res, d\<lparr>hrepo := Some (w\<lparr>backing := s1\<rparr>)\<rparr>))
                   | Some (Inr log, s1) \<Rightarrow>
                       Some (Local (None, log, d\<lparr>hrepo := Some (w\<lparr>backing := s1\<rparr>)\<rparr>))))))"

text \<open>
  The path \<open>Log\<close> visits after a record: \<open>datastore.NewKey(cleaned)\<close> for the cleaned
  reference that \<open>dsfs.RefType\<close> returns for the record's \<open>Previous\<close>.
\<close>

definition previous_path :: "'s env \<Rightarrow> Dataset \<Rightarrow> key" where
  "previous_path E ds = NewKey E (snd (RefType E (Previous ds)))"

text \<open>
  \<open>history_chain E s p ds\<close>: following \<open>Previous\<close> from path \<open>p\<close> in state \<open>s\<close> every
  load succeeds, the records met are \<open>ds\<close> in this order, and the last one is a root
  (empty \<open>Previous\<close>). The records reachable from \<open>p\<close> then form a finite chain without a
  cycle.
\<close>

fun history_chain :: "'s env \<Rightarrow> 's \<Rightarrow> key \<Rightarrow> Dataset list \<Rightarrow> bool" where
  "history_chain E s p [] = False"
| "history_chain E s p (d # ds) =
     (case LoadDataset E s p of
        (Inl err, s1) \<Rightarrow> False
      | (Inr d1, s1) \<Rightarrow>
          d1 = d \<and> (if ds = [] then Previous d = []
                    else Previous d \<noteq> [] \<and> history_chain E s1 (previous_path E d) ds))"

text \<open>The references \<open>Log\<close> builds for the records of a chain that starts at \<open>p\<close>.\<close>

fun chain_refs :: "'s env \<Rightarrow> key \<Rightarrow> Dataset list \<Rightarrow> DatasetRef list" where
  "chain_refs E p [] = []"
| "chain_refs E p (d # ds) =
     \<lparr>Name = [], Path = p, Dataset = Some d\<rparr> # chain_refs E (previous_path E d) ds"

text \<open>
  \<open>history_breaks E s p ds err\<close>: following \<open>Previous\<close> from path \<open>p\<close> in state \<open>s\<close> the
  loads succeed on the records \<open>ds\<close>, none of them a root, and the load after them fails
  with \<open>err\<close>.
\<close>

fun history_breaks :: "'s env \<Rightarrow> 's \<Rightarrow> key \<Rightarrow> Dataset list \<Rightarrow> error \<Rightarrow> bool" where
  "history_breaks E s p [] err =
     (case LoadDataset E s p of
        (Inl e, s1) \<Rightarrow> e = err
      | (Inr d1, s1) \<Rightarrow> False)"
| "history_breaks E s p (d # ds) err =
     (case LoadDataset E s p of
        (Inl e, s1) \<Rightarrow> False
      | (Inr d1, s1) \<Rightarrow>
          d1 = d \<and> Previous d \<noteq> [] \<and> history_breaks E s1 (previous_path E d) ds err)"

section \<open>DatasetRequests.Rename\<close>

record RenameParams =
  Current :: string
  New :: string

definition DatasetRequests_Rename ::
  "'s env \<Rightarrow> 's DatasetRequests \<Rightarrow> RenameParams \<Rightarrow> DatasetRef
     \<Rightarrow> (RenameParams, DatasetRef, error option \<times> DatasetRef \<times> 's DatasetRequests) outcome"
  where
  "DatasetRequests_Rename E r p res =
     (case cli r of
        Some c \<Rightarrow> Forwarded c ''DatasetRequests.Rename'' p res
      | None \<Rightarrow>
          (if Current p = [] then
             Local (Some ''current name is required to rename a dataset'', res, r)
           else
             (case ValidName E (New p) of
                Some err \<Rightarrow> Local (Some err, res, r)
              | None \<Rightarrow>
                  (case repo r of
                     None \<Rightarrow> Panic
                   | Some w \<Rightarrow>
                       (if GetPath (names w) (New p) \<noteq> Inl ErrNotFound then
                          Local (Some (''name '' @ [CHR 0x27] @ New p @ [CHR 0x27]
                                        @ '' already exists''), res, r)
                        else
                          (case GetPath (names w) (Current p) of
                             Inl err \<Rightarrow> Local (Some (''error getting dataset: '' @ err), res, r)
                           | Inr path \<Rightarrow>
                               (case DeleteName (delete_absent_fails E) (names w) (Current p) of
                                  (Some err, ns1) \<Rightarrow>
                                    Local (Some err, res, with_repo r ns1 (backing w))
                                | (None, ns1) \<Rightarrow>
                                    (case PutName ns1 (New p) path of
                                       (Some err, ns2) \<Rightarrow>
                                         Local (Some err, res, with_repo r ns2 (backing w))
                                     | (None, ns2) \<Rightarrow>
                                         (case LoadDataset E (backing w) path of
                                            (Inl err, s1) \<Rightarrow>
                                              Local (Some err, res, with_repo r ns2 s1)
                                          | (Inr ds, s1) \<Rightarrow>
                                              Local (None,
                                                \<lparr>Name = New p, Path = path, Dataset = Some ds\<rparr>,
                                                with_repo r ns2 s1))))))))))"

section \<open>DatasetRequests.Delete\<close>

record DeleteParams =
  DeletePath :: key
  DeleteName_of :: string

text \<open>
  The local result holds the parameter struct as well: \<open>Delete\<close> assigns \<open>p.Path\<close> and
  \<open>p.Name\<close>. The store is unpinned only when it implements \<open>cafs.Pinner\<close>.
\<close>

definition DatasetRequests_Delete ::
  "'s env \<Rightarrow> 's DatasetRequests \<Rightarrow> DeleteParams \<Rightarrow> bool
     \<Rightarrow> (DeleteParams, bool,
         error option \<times> DeleteParams \<times> bool \<times> 's DatasetRequests) outcome" where
  "DatasetRequests_Delete E r p ok =
     (case cli r of
        Some c \<Rightarrow> Forwarded c ''DatasetRequests.List'' p ok
      | None \<Rightarrow>
          (if DeleteName_of p = [] \<and> DeletePath p = [] then
             Local (Some ''either name or path is required'', p, ok, r)
           else
             (case repo r of
                None \<Rightarrow> Panic
              | Some w \<Rightarrow>
                  (case (if DeletePath p = [] then
                           (case GetPath (names w) (DeleteName_of p) of
                              Inl err \<Rightarrow> Inl err
                            | Inr k \<Rightarrow> Inr (p\<lparr>DeletePath := k\<rparr>))
                         else Inr p) of
                     Inl err \<Rightarrow> Local (Some err, p, ok, r)
                   | Inr p1 \<Rightarrow>
                       (case GetName (names w) (DeletePath p1) of
                          (n, Some err) \<Rightarrow> Local (Some err, p1\<lparr>DeleteName_of := n\<rparr>, ok, r)
                        | (n, None) \<Rightarrow>
                            (let p2 = p1\<lparr>DeleteName_of := n\<rparr> in
                               (case (case Unpin E of
                                        None \<Rightarrow> (None, backing w)
                                      | Some unpin \<Rightarrow>
                                          unpin (backing w)
                                            (NewKey E (TrimSuffix (DeletePath p2)
                                               (''/'' @ PackageFileDataset E))) True) of
                                  (Some err, s1) \<Rightarrow> Local (Some err, p2, ok, with_backing r w s1)
                                | (None, s1) \<Rightarrow>
                                    (case DeleteName (delete_absent_fails E) (names w)
                                            (DeleteName_of p2) of
                                       (Some err, ns1) \<Rightarrow>
                                         Local (Some err, p2, ok, with_repo r ns1 s1)
                                     | (None, ns1) \<Rightarrow>
                                         Local (None, p2, True, with_repo r ns1 s1)))))))))"

section \<open>DatasetRequests.InitDataset\<close>

record InitDatasetParams =
  InitName :: string
  URL :: string
  DataFilename :: string
  InitData :: "reader option"
  MetadataFilename :: string
  Metadata :: "reader option"

text \<open>
  The source of the data (the \<open>if p.URL != ""\<close> chain): the file name and the reader, or
  the error.
\<close>

definition InitDataset_source ::
  "'s env \<Rightarrow> InitDatasetParams \<Rightarrow> 's \<Rightarrow> (error + string \<times> reader) \<times> 's" where
  "InitDataset_source E p s =
     (if URL p \<noteq> [] then
        (case http_Get E s (URL p) of
           (Inl err, s1) \<Rightarrow> (Inl (''error fetching url: '' @ err), s1)
         | (Inr body, s1) \<Rightarrow> (Inr (filepath_Base E (URL p), body), s1))
      else
        (case InitData p of
           Some rdr \<Rightarrow> (Inr (DataFilename p, rdr), s)
         | None \<Rightarrow> (Inl ''either a file or a url is required to create a dataset'', s)))"

text \<open>
  The checks before anything is written: the name, reading the data, the format of the
  file name's extension, the data against that format, the inferred structure, and the
  data against the structure's format. The result is the data and the structure.
\<close>

definition InitDataset_checks ::
  "'s env \<Rightarrow> InitDatasetParams \<Rightarrow> string \<Rightarrow> reader \<Rightarrow> error + string \<times> Structure" where
  "InitDataset_checks E p filename rdr =
     (case (if InitName p \<noteq> [] then ValidName E (InitName p) else None) of
        Some err \<Rightarrow> Inl (''invalid name: '' @ err)
      | None \<Rightarrow>
          (case rdr of
             Inl err \<Rightarrow> Inl (''error reading file: '' @ err)
           | Inr data \<Rightarrow>
               (case ExtensionDataFormat E filename of
                  Inl err \<Rightarrow> Inl (''error detecting format extension: '' @ err)
                | Inr format \<Rightarrow>
                    (case validate_DataFormat E format data of
                       Some err \<Rightarrow> Inl (''invalid data format: '' @ err)
                     | None \<Rightarrow>
                         (case detect_FromReader E filename data of
                            Inl err \<Rightarrow> Inl (''error determining dataset schema: '' @ err)
                          | Inr st \<Rightarrow>
                              (case validate_Structure E st of
                                 Some err \<Rightarrow> Inl (''invalid structure: '' @ err)
                               | None \<Rightarrow>
                                   (case validate_DataFormat E (Format st) data of
                                      Some err \<Rightarrow> Inl (''invalid data format: '' @ err)
                                    | None \<Rightarrow> Inr (data, st))))))))"

text \<open>The name the dataset is bound to: the caller's, or one made from the file name.\<close>

definition InitDataset_name :: "'s env \<Rightarrow> InitDatasetParams \<Rightarrow> string \<Rightarrow> string" where
  "InitDataset_name E p filename =
     (if InitName p = [] \<and> filename \<noteq> [] then Camelize E filename else InitName p)"

text \<open>The record before its timestamp: URL fields and the decoded metadata.\<close>

definition InitDataset_metadata :: "'s env \<Rightarrow> InitDatasetParams \<Rightarrow> error + Dataset" where
  "InitDataset_metadata E p =
     (let ds = (if URL p \<noteq> []
                then empty_Dataset\<lparr>DownloadURL := URL p, AccrualPeriodicity := ''R/P1W''\<rparr>
                else empty_Dataset)
      in (case Metadata p of
            None \<Rightarrow> Inr ds
          | Some (Inl err) \<Rightarrow> Inl (''error parsing metadata json: '' @ err)
          | Some (Inr bytes) \<Rightarrow>
              (case decode_metadata E bytes ds of
                 Inl err \<Rightarrow> Inl (''error parsing metadata json: '' @ err)
               | Inr ds1 \<Rightarrow> Inr ds1)))"

definition InitDataset_assemble ::
  "'s env \<Rightarrow> Dataset \<Rightarrow> nat \<Rightarrow> string \<Rightarrow> key \<Rightarrow> Structure \<Rightarrow> Dataset" where
  "InitDataset_assemble E ds now_utc name datakey st =
     (let ds1 = ds\<lparr>Timestamp := now_utc\<rparr>;
          ds2 = (if Title ds1 = [] then ds1\<lparr>Title := name\<rparr> else ds1);
          ds3 = ds2\<lparr>Data := datakey\<rparr>;
          own = (case Structure ds3 of None \<Rightarrow> empty_Structure | Some x \<Rightarrow> x)
      in ds3\<lparr>Structure := Some (Structure_Assign E own [st, own])\<rparr>)"

text \<open>
  After the record is assembled and valid: save it, put it in the repository, bind the
  name, read it back.
\<close>

definition InitDataset_persist ::
  "'s env \<Rightarrow> 's DatasetRequests \<Rightarrow> InitDatasetParams \<Rightarrow> DatasetRef \<Rightarrow> namestore \<Rightarrow> 's
     \<Rightarrow> string \<Rightarrow> Dataset \<Rightarrow> error option \<times> DatasetRef \<times> 's DatasetRequests" where
  "InitDataset_persist E r p res ns s name ds =
     (case SaveDataset E s ds True of
        (Inl err, s1) \<Rightarrow> (Some (''error saving dataset: '' @ err), res, with_repo r ns s1)
      | (Inr dskey, s1) \<Rightarrow>
          (case PutDataset E s1 dskey ds of
             (Some err, s2) \<Rightarrow>
               (Some (''error putting dataset in repo: '' @ err), res, with_repo r ns s2)
           | (None, s2) \<Rightarrow>
               (case PutName ns name dskey of
                  (Some err, ns1) \<Rightarrow>
                    (Some (''error adding dataset name to repo: '' @ err), res,
                     with_repo r ns1 s2)
                | (None, ns1) \<Rightarrow>
                    (case GetDataset E s2 dskey of
                       (Inl err, s3) \<Rightarrow>
                         (Some (''error reading dataset: '' @ err), res, with_repo r ns1 s3)
                     | (Inr ds1, s3) \<Rightarrow>
                         (None, \<lparr>Name = InitName p, Path = dskey, Dataset = Some ds1\<rparr>,
                          with_repo r ns1 s3)))))"

text \<open>
  Everything \<open>InitDataset\<close> does before it saves: the source, the checks, the data
  file put in the store, the guard against data that is already there, the metadata,
  the timestamp, the assembled record and its validation. The result is the name to
  bind and the record to save, or the error.
\<close>

definition InitDataset_record ::
  "'s env \<Rightarrow> InitDatasetParams \<Rightarrow> 's Repo \<Rightarrow> (error + string \<times> Dataset) \<times> 's" where
  "InitDataset_record E p w =
     (case InitDataset_source E p (backing w) of
        (Inl err, s1) \<Rightarrow> (Inl err, s1)
      | (Inr (filename, rdr), s1) \<Rightarrow>
          (case InitDataset_checks E p filename rdr of
             Inl err \<Rightarrow> (Inl err, s1)
           | Inr (data, st) \<Rightarrow>
               (case store_Put E s1 (''data.'' @ Format st) data False of
                  (Inl err, s2) \<Rightarrow> (Inl (''error putting data file in store: '' @ err), s2)
                | (Inr datakey, s2) \<Rightarrow>
                    (case HasPath E (names w) s2 datakey of
                       ((dataexists, herr), s3) \<Rightarrow>
                         (case (case herr of
                                  None \<Rightarrow> None
                                | Some e \<Rightarrow> if Contains e ErrRepoEmpty then None else Some e) of
                            Some e \<Rightarrow>
                              (Inl (''error checking repo for already-existing data: '' @ e), s3)
                          | None \<Rightarrow>
                              (if dataexists then (Inl ''this data already exists'', s3)
                               else
                                 (case InitDataset_metadata E p of
                                    Inl err \<Rightarrow> (Inl err, s3)
                                  | Inr ds0 \<Rightarrow>
                                      (case Now E s3 of
                                         (t, s4) \<Rightarrow>
                                           (let name = InitDataset_name E p filename;
                                                ds = InitDataset_assemble E ds0 t name datakey st
                                            in (case validate_Dataset E ds of
                                                  Some err \<Rightarrow> (Inl err, s4)
                                                | None \<Rightarrow> (Inr (name, ds), s4)))))))))))"

definition DatasetRequests_InitDataset ::
  "'s env \<Rightarrow> 's DatasetRequests \<Rightarrow> InitDatasetParams \<Rightarrow> DatasetRef
     \<Rightarrow> (InitDatasetParams, DatasetRef,
         error option \<times> DatasetRef \<times> 's DatasetRequests) outcome" where
  "DatasetRequests_InitDataset E r p res =
     (case cli r of
        Some c \<Rightarrow> Forwarded c ''DatasetRequests.InitDataset'' p res
      | None \<Rightarrow>
          (case repo r of
             None \<Rightarrow> Panic
           | Some w \<Rightarrow>
               (case InitDataset_record E p w of
                  (Inl err, s) \<Rightarrow> Local (Some err, res, with_backing r w s)
                | (Inr (name, ds), s) \<Rightarrow>
                    Local (InitDataset_persist E r p res (names w) s name ds))))"

section \<open>DatasetRequests.Update\<close>

text \<open>\<open>Changes\<close> is a pointer; a nil one makes \<open>p.Changes.Previous\<close> panic.\<close>

record UpdateParams =
  Changes :: "Dataset option"
  UpdateFilename :: string
  UpdateData :: "reader option"

text \<open>
  The name and the path of the previous revision: by name when \<open>dsfs.RefType\<close> says
  the reference is a name (looked up with the slashes trimmed, kept as it is), otherwise
  by path, with the name taken from the naming store (the error of \<open>GetName\<close> is dropped).
\<close>

definition Update_resolve ::
  "'s env \<Rightarrow> namestore \<Rightarrow> Dataset \<Rightarrow> error + string \<times> key" where
  "Update_resolve E ns changes =
     (case RefType E (Previous changes) of
        (rt, ref) \<Rightarrow>
          (if rt = ''name'' then
             (case GetPath ns (Trim_slash ref) of
                Inl err \<Rightarrow> Inl (''error getting previous dataset path: '' @ err)
              | Inr prevpath \<Rightarrow> Inr (ref, prevpath))
           else Inr (fst (GetName ns (NewKey E ref)), NewKey E ref)))"

text \<open>
  The data of an update. \<open>ioutil.ReadAll\<close> has drained the reader before it is handed
  to the store, so the file that is put has no content; \<open>Length\<close> is that of the data read.
\<close>

definition Update_data ::
  "'s env \<Rightarrow> UpdateParams \<Rightarrow> Dataset \<Rightarrow> 's \<Rightarrow> (error + Dataset) \<times> 's" where
  "Update_data E p ds s =
     (case UpdateData p of
        None \<Rightarrow> (Inr ds, s)
      | Some (Inl err) \<Rightarrow> (Inl (''error reading data: '' @ err), s)
      | Some (Inr data) \<Rightarrow>
          (case store_Put E s (UpdateFilename p) [] False of
             (Inl err, s1) \<Rightarrow> (Inl (''error putting data in store: '' @ err), s1)
           | (Inr path, s1) \<Rightarrow> (Inr (ds\<lparr>Data := path, Length := int (length data)\<rparr>), s1)))"

text \<open>The value \<open>Update\<close> gives the new record's \<open>Previous\<close>.\<close>

definition Update_previous :: "'s env \<Rightarrow> key \<Rightarrow> key" where
  "Update_previous E prevpath =
     (if HasSuffix prevpath (PackageFileDataset E)
      then NewKey E (TrimSuffix prevpath (''/'' @ PackageFileDataset E))
      else prevpath)"

text \<open>The rebinding of the name at the end of \<open>Update\<close>.\<close>

definition Update_rebind ::
  "'s env \<Rightarrow> namestore \<Rightarrow> string \<Rightarrow> key \<Rightarrow> error option \<times> namestore" where
  "Update_rebind E ns name dspath =
     (if name \<noteq> [] then
        (case DeleteName (delete_absent_fails E) ns name of
           (Some err, ns1) \<Rightarrow> (Some err, ns1)
         | (None, ns1) \<Rightarrow> PutName ns1 name dspath)
      else (None, ns))"

definition DatasetRequests_Update ::
  "'s env \<Rightarrow> 's DatasetRequests \<Rightarrow> UpdateParams \<Rightarrow> DatasetRef
     \<Rightarrow> (UpdateParams, DatasetRef, error option \<times> DatasetRef \<times> 's DatasetRequests) outcome"
  where
  "DatasetRequests_Update E r p res =
     (case cli r of
        Some c \<Rightarrow> Forwarded c ''DatasetRequests.Update'' p res
      | None \<Rightarrow>
          (case repo r of
             None \<Rightarrow> Panic
           | Some w \<Rightarrow>
               (case Changes p of
                  None \<Rightarrow> Panic
                | Some changes \<Rightarrow>
                    (case Update_resolve E (names w) changes of
                       Inl err \<Rightarrow> Local (Some err, res, r)
                     | Inr (name, prevpath) \<Rightarrow>
                         (case GetDataset E (backing w) prevpath of
                            (Inl err, s1) \<Rightarrow>
                              Local (Some (''error getting previous dataset: '' @ err), res,
                                     with_backing r w s1)
                          | (Inr prev, s1) \<Rightarrow>
                              (case Update_data E p (Dataset_Assign E empty_Dataset [prev, changes])
                                      s1 of
                                 (Inl err, s2) \<Rightarrow> Local (Some err, res, with_backing r w s2)
                               | (Inr ds1, s2) \<Rightarrow>
                                   (let ds2 = ds1\<lparr>Previous := Update_previous E prevpath\<rparr> in
                                      (case validate_Dataset E ds2 of
                                         Some err \<Rightarrow> Local (Some err, res, with_backing r w s2)
                                       | None \<Rightarrow>
                                           (case Now E s2 of
                                              (t, s3) \<Rightarrow>
                                                (let ds3 = ds2\<lparr>Timestamp := t\<rparr> in
                                                   (case SaveDataset E s3 ds3 True of
                                                      (Inl err, s4) \<Rightarrow>
                                                        Local (Some (''error saving dataset: '' @ err),
                                                               res, with_backing r w s4)
                                                    | (Inr dspath, s4) \<Rightarrow>
                                                        (case Update_rebind E (names w) name dspath of
                                                           (Some err, ns1) \<Rightarrow>
                                                             Local (Some err, res,
                                                                    with_repo r ns1 s4)
                                                         | (None, ns1) \<Rightarrow>
                                                             Local (None,
                                                               \<lparr>Name = name, Path = dspath,
                                                                Dataset = Some ds3\<rparr>,
                                                               with_repo r ns1 s4)))))))))))))"

section \<open>The parameters List works with\<close>

text \<open>
  The parameter struct after the two guards at the head of \<open>List\<close> (a \<open>Limit\<close> of
  at most 0 becomes 25, a negative \<open>Offset\<close> becomes 0).
\<close>

definition List_defaults :: "ListParams \<Rightarrow> ListParams" where
  "List_defaults p =
     p\<lparr>Limit := (if Limit p \<le> 0 then 25 else Limit p),
       Offset := (if Offset p < 0 then 0 else Offset p)\<rparr>"

section \<open>The iteration count of Log\<close>

text \<open>
  How many records \<open>Log\<close> appends before its counter reaches zero: \<open>limit\<close> itself when
  it is positive; from zero or below the counter has to run through the whole negative
  range and wrap around first.
\<close>

definition Log_count :: "int \<Rightarrow> nat" where
  "Log_count limit = (if 0 < limit then nat limit else nat (limit + 2 ^ 64))"

section \<open>An in-memory repository for the examples\<close>

text \<open>
  A small concrete world on which the theorems are run: datasets saved under a key, a
  number of loads that are still going to fail (a flaky store), and a clock. The
  collaborators are simple stand-ins: a reference is a path when it starts with \<open>/ipfs\<close>
  or \<open>/mem\<close> or ends with the package file name, a file's format is its extension, a CSV
  payload is well-formed when it is not empty, and its columns are the comma-separated
  fields of its first line.
\<close>

record mem =
  saved :: "(key \<times> Dataset) list"
  failing_loads :: nat
  clock :: nat

definition mem_load :: "mem \<Rightarrow> key \<Rightarrow> (error + Dataset) \<times> mem" where
  "mem_load s k =
     (if 0 < failing_loads s
      then (Inl ''datastore: temporarily unavailable'', s\<lparr>failing_loads := failing_loads s - 1\<rparr>)
      else (case map_of (saved s) k of
              None \<Rightarrow> (Inl ''datastore: key not found'', s)
            | Some d \<Rightarrow> (Inr d, s)))"

definition mem_get :: "mem \<Rightarrow> key \<Rightarrow> (error + Dataset) \<times> mem" where
  "mem_get s k =
     (case map_of (saved s) k of
        None \<Rightarrow> (Inl ''datastore: key not found'', s)
      | Some d \<Rightarrow> (Inr d, s))"

definition mem_save :: "mem \<Rightarrow> Dataset \<Rightarrow> bool \<Rightarrow> (error + key) \<times> mem" where
  "mem_save s ds pin =
     (let k = ''/mem/'' @ Title ds @ ''/'' @ replicate (Timestamp ds) (CHR ''i'')
                @ ''/dataset.json''
      in (Inr k, s\<lparr>saved := (k, ds) # saved s\<rparr>))"

definition mem_NewKey :: "string \<Rightarrow> key" where
  "mem_NewKey x = (case x of [] \<Rightarrow> ''/'' | c # cs \<Rightarrow> if c = CHR ''/'' then x else CHR ''/'' # x)"

definition mem_RefType :: "string \<Rightarrow> string \<times> string" where
  "mem_RefType ref =
     (if take 5 ref = ''/ipfs'' \<or> take 4 ref = ''/mem'' \<or> HasSuffix ref ''dataset.json''
      then (''path'', ref) else (''name'', ref))"

definition extension :: "string \<Rightarrow> string" where
  "extension f = rev (takeWhile (\<lambda>c. c \<noteq> CHR ''.'') (rev f))"

fun split_commas :: "string \<Rightarrow> string \<Rightarrow> string list" where
  "split_commas acc [] = [rev acc]"
| "split_commas acc (c # cs) =
     (if c = CHR '','' then rev acc # split_commas [] cs else split_commas (c # acc) cs)"

definition first_line :: "string \<Rightarrow> string" where
  "first_line s = takeWhile (\<lambda>c. c \<noteq> CHR 0x0A) s"

definition merge_Structure :: "Structure \<Rightarrow> Structure \<Rightarrow> Structure" where
  "merge_Structure a b =
     \<lparr>Format = (if Format b = [] then Format a else Format b),
      FieldNames = (if FieldNames b = [] then FieldNames a else FieldNames b)\<rparr>"

definition merge_Dataset :: "Dataset \<Rightarrow> Dataset \<Rightarrow> Dataset" where
  "merge_Dataset a b =
     \<lparr>Title = (if Title b = [] then Title a else Title b),
      Timestamp = (if Timestamp b = 0 then Timestamp a else Timestamp b),
      Data = (if Data b = [] then Data a else Data b),
      Length = (if Length b = 0 then Length a else Length b),
      Previous = (if Previous b = [] then Previous a else Previous b),
      DownloadURL = (if DownloadURL b = [] then DownloadURL a else DownloadURL b),
      AccrualPeriodicity =
        (if AccrualPeriodicity b = [] then AccrualPeriodicity a else AccrualPeriodicity b),
      Structure = (case Structure b of None \<Rightarrow> Structure a | Some x \<Rightarrow> Some x)\<rparr>"

definition mem_env :: "mem env" where
  "mem_env =
     \<lparr>delete_absent_fails = False,
      Namespace = (\<lambda>ns s limit offset.
         (Inr (map (\<lambda>b. \<lparr>Name = fst b, Path = snd b, Dataset = None\<rparr>)
                 (take (nat limit) (drop (nat offset) ns))), s)),
      LoadDataset = mem_load,
      SaveDataset = mem_save,
      store_Put = (\<lambda>s name data pin. (Inr (''/mem/blob/'' @ data), s)),
      Unpin = None,
      PutDataset = (\<lambda>s k ds. (None, s)),
      GetDataset = mem_get,
      HasPath = (\<lambda>ns s k. ((list_ex (\<lambda>b. Data (snd b) = k) (saved s), None), s)),
      http_Get = (\<lambda>s url. (Inl ''no network'', s)),
      Now = (\<lambda>s. (clock s, s\<lparr>clock := Suc (clock s)\<rparr>)),
      NewKey = mem_NewKey,
      RefType = mem_RefType,
      PackageFileDataset = ''dataset.json'',
      filepath_Base = (\<lambda>url. rev (takeWhile (\<lambda>c. c \<noteq> CHR ''/'') (rev url))),
      ValidName = (\<lambda>n. if ValidDatasetName n then None else Some ''invalid name''),
      ExtensionDataFormat = (\<lambda>f. if CHR ''.'' \<in> set f then Inr (extension f)
                                   else Inl ''no file extension provided''),
      validate_DataFormat = (\<lambda>format data.
         if data = [] then Some ''error reading first row of csv: EOF'' else None),
      detect_FromReader = (\<lambda>f data.
         Inr \<lparr>Format = extension f, FieldNames = split_commas [] (first_line data)\<rparr>),
      validate_Structure = (\<lambda>st.
         if distinct (FieldNames st) then None
         else Some ''error: cannot use the same name more than once''),
      validate_Dataset = (\<lambda>ds. None),
      Camelize = (\<lambda>f. takeWhile (\<lambda>c. c \<noteq> CHR ''.'') f),
      decode_metadata = (\<lambda>bytes ds. Inr (ds\<lparr>Title := bytes\<rparr>)),
      Structure_Assign = foldl merge_Structure,
      Dataset_Assign = foldl merge_Dataset\<rparr>"

text \<open>
  The same world with a dataset store whose reads fail: what is put cannot be read
  back.
\<close>

definition unreadable_env :: "mem env" where
  "unreadable_env = mem_env\<lparr>GetDataset := (\<lambda>s k. (Inl ''datastore: key not found'', s))\<rparr>"

text \<open>A history of four revisions of one dataset, the newest first.\<close>

definition rev0 :: Dataset where
  "rev0 = empty_Dataset\<lparr>Title := ''movies'', Timestamp := 1\<rparr>"

definition rev1 :: Dataset where
  "rev1 = empty_Dataset\<lparr>Title := ''movies'', Timestamp := 2, Previous := ''/mem/r0''\<rparr>"

definition rev2 :: Dataset where
  "rev2 = empty_Dataset\<lparr>Title := ''movies'', Timestamp := 3, Previous := ''/mem/r1''\<rparr>"

definition rev3 :: Dataset where
  "rev3 = empty_Dataset\<lparr>Title := ''movies'', Timestamp := 4, Previous := ''/mem/r2''\<rparr>"

definition history_mem :: mem where
  "history_mem =
     \<lparr>saved = [(''/mem/r3'', rev3), (''/mem/r2'', rev2), (''/mem/r1'', rev1), (''/mem/r0'', rev0)],
      failing_loads = 0, clock = 5\<rparr>"

definition history_handler :: "mem HistoryRequests" where
  "history_handler =
     \<lparr>hrepo = Some \<lparr>names = [(''movies'', ''/mem/r3'')], backing = history_mem\<rparr>, hcli = None\<rparr>"

definition dataset_handler :: "mem DatasetRequests" where
  "dataset_handler =
     \<lparr>repo = Some \<lparr>names = [(''movies'', ''/mem/r3'')], backing = history_mem\<rparr>, cli = None\<rparr>"

text \<open>The same repository on a store whose next load fails.\<close>

definition flaky_mem :: mem where
  "flaky_mem = history_mem\<lparr>failing_loads := 1\<rparr>"

definition flaky_handler :: "mem DatasetRequests" where
  "flaky_handler =
     \<lparr>repo = Some \<lparr>names = [(''movies'', ''/mem/r3'')], backing = flaky_mem\<rparr>, cli = None\<rparr>"

text \<open>A two-column CSV file to create a dataset from, and the same file without a name.\<close>

definition cities_csv :: string where
  "cities_csv = ''city,pop'' @ [CHR 0x0A] @ ''toronto,40''"

definition cities_params :: InitDatasetParams where
  "cities_params =
     \<lparr>InitName = [], URL = [], DataFilename = ''cities.csv'', InitData = Some (Inr cities_csv),
      MetadataFilename = [], Metadata = None\<rparr>"

definition no_params :: InitDatasetParams where
  "no_params =
     \<lparr>InitName = [], URL = [], DataFilename = [], InitData = None,
      MetadataFilename = [], Metadata = None\<rparr>"

text \<open>The same file under a name that is already bound.\<close>

definition taken_params :: InitDatasetParams where
  "taken_params = cities_params\<lparr>InitName := ''movies''\<rparr>"




text \<open>The record made from the CSV file, and the store after it has been saved.\<close>

definition cities_ds :: Dataset where
  "cities_ds =
     \<lparr>Title = ''cities'', Timestamp = 5, Data = ''/mem/blob/'' @ cities_csv, Length = 0,
      Previous = [], DownloadURL = [], AccrualPeriodicity = [],
      Structure = Some \<lparr>Format = ''csv'', FieldNames = [''city'', ''pop'']\<rparr>\<rparr>"

definition cities_mem :: mem where
  "cities_mem =
     history_mem\<lparr>saved := (''/mem/cities/iiiii/dataset.json'', cities_ds) # saved history_mem,
                 clock := 6\<rparr>"

text \<open>A store that has lost the two oldest revisions.\<close>

definition broken_mem :: mem where
  "broken_mem = history_mem\<lparr>saved := [(''/mem/r3'', rev3), (''/mem/r2'', rev2)]\<rparr>"

definition broken_handler :: "mem HistoryRequests" where
  "broken_handler =
     \<lparr>hrepo = Some \<lparr>names = [(''movies'', ''/mem/r3'')], backing = broken_mem\<rparr>, hcli = None\<rparr>"

text \<open>
  A naming store that answers with everything from the offset on, whatever the limit,
  and a repository with two names.
\<close>

definition unpaged_env :: "mem env" where
  "unpaged_env =
     mem_env\<lparr>Namespace := (\<lambda>ns s limit offset.
        (Inr (map (\<lambda>b. \<lparr>Name = fst b, Path = snd b, Dataset = None\<rparr>) (drop (nat offset) ns)), s))\<rparr>"

definition two_handler :: "mem DatasetRequests" where
  "two_handler =
     \<lparr>repo = Some \<lparr>names = [(''movies'', ''/mem/r3''), (''first'', ''/mem/r0'')],
                   backing = history_mem\<rparr>,
      cli = None\<rparr>"

text \<open>The store once the clock has been read, and stores that refuse a record.\<close>

definition stamped_mem :: mem where
  "stamped_mem = history_mem\<lparr>clock := 6\<rparr>"

definition unsavable_env :: "mem env" where
  "unsavable_env = mem_env\<lparr>SaveDataset := (\<lambda>s ds pin. (Inl ''disk full'', s))\<rparr>"

definition unputtable_env :: "mem env" where
  "unputtable_env = mem_env\<lparr>PutDataset := (\<lambda>s k ds. (Some ''read-only repository'', s))\<rparr>"



text \<open>
  The repository after the CSV file has been added, and two updates of that dataset that
  change its title: one naming the previous revision by its path, one by its name.
\<close>

definition cities_handler :: "mem DatasetRequests" where
  "cities_handler =
     \<lparr>repo = Some \<lparr>names = [(''movies'', ''/mem/r3''),
                              (''cities'', ''/mem/cities/iiiii/dataset.json'')],
                    backing = cities_mem\<rparr>,
      cli = None\<rparr>"

definition retitle_by_path :: UpdateParams where
  "retitle_by_path =
     \<lparr>Changes = Some (empty_Dataset\<lparr>Title := ''towns'',
                                      Previous := ''/mem/cities/iiiii/dataset.json''\<rparr>),
      UpdateFilename = [], UpdateData = None\<rparr>"

definition retitle_by_name :: UpdateParams where
  "retitle_by_name =
     \<lparr>Changes = Some (empty_Dataset\<lparr>Title := ''towns'', Previous := ''cities''\<rparr>),
      UpdateFilename = [], UpdateData = None\<rparr>"

text \<open>The record such an update makes, and the store after it.\<close>

definition towns_ds :: Dataset where
  "towns_ds = cities_ds\<lparr>Title := ''towns'', Timestamp := 6, Previous := ''/mem/cities/iiiii''\<rparr>"

definition towns_mem :: mem where
  "towns_mem =
     cities_mem\<lparr>saved := (''/mem/towns/iiiiii/dataset.json'', towns_ds) # saved cities_mem,
                clock := 7\<rparr>"

section \<open>Facts about the integer model\<close>

lemma wrap64_id: "is_int64 x \<Longrightarrow> wrap64 x = x"
  by (simp add: is_int64_def wrap64_def)

lemma is_int64_wrap64: "is_int64 (wrap64 x)"
proof -
  have "0 \<le> (x + 2 ^ 63) mod (2 ^ 64 :: int)" by simp
  moreover have "(x + 2 ^ 63) mod (2 ^ 64 :: int) < 2 ^ 64" by simp
  ultimately show ?thesis by (simp add: is_int64_def wrap64_def)
qed

lemma sdiv_mult_cancel:
  assumes "0 \<le> (a::int)" and "0 < b"
  shows "(a * b) sdiv b = a"
proof (cases "a = 0")
  case True
  then show ?thesis by simp
next
  case False
  with assms have "0 < a" by simp
  with assms show ?thesis by (simp add: signed_divide_int_def sgn_mult abs_mult)
qed

section \<open>Unfolding the examples\<close>

lemmas mem_simps = mem_env_def mem_load_def mem_get_def mem_RefType_def mem_NewKey_def
  HasSuffix_def previous_path_def rev0_def rev1_def rev2_def rev3_def empty_Dataset_def
  history_mem_def history_handler_def dataset_handler_def
  flaky_mem_def flaky_handler_def

section \<open>Lemmas about the naming store\<close>

lemma GetPath_bound: "GetPath ns n \<noteq> Inl ErrNotFound \<longleftrightarrow> map_of ns n \<noteq> None"
  by (auto simp: GetPath_def split: option.splits)

lemma GetPath_Inr: "GetPath ns n = Inr p \<longleftrightarrow> map_of ns n = Some p"
  by (auto simp: GetPath_def split: option.splits)

lemma GetPath_Inl: "GetPath ns n = Inl e \<longleftrightarrow> map_of ns n = None \<and> e = ErrNotFound"
  by (auto simp: GetPath_def split: option.splits)

lemma map_of_filter_fst_same: "map_of (filter (\<lambda>b. fst b \<noteq> n) ns) n = None"
  by (induction ns) auto

lemma map_of_filter_fst_other:
  "m \<noteq> n \<Longrightarrow> map_of (filter (\<lambda>b. fst b \<noteq> n) ns) m = map_of ns m"
  by (induction ns) auto

lemma DeleteName_ok:
  "DeleteName strict ns n = (None, ns1) \<Longrightarrow>
   map_of ns1 n = None \<and> (\<forall>m. m \<noteq> n \<longrightarrow> map_of ns1 m = map_of ns m)"
  by (auto simp: DeleteName_def map_of_filter_fst_same map_of_filter_fst_other split: if_splits)

lemma DeleteName_err: "DeleteName strict ns n = (Some e, ns1) \<Longrightarrow> ns1 = ns"
  by (auto simp: DeleteName_def split: if_splits)

lemma PutName_ok:
  "PutName ns n p = (None, ns1) \<Longrightarrow>
   ns1 = ns @ [(n, p)] \<and> map_of ns n = None \<and> ValidDatasetName n
   \<and> map_of ns1 n = Some p \<and> (\<forall>m. m \<noteq> n \<longrightarrow> map_of ns1 m = map_of ns m)"
  by (auto simp: PutName_def map_add_def split: if_splits option.splits)

lemma PutName_err: "PutName ns n p = (Some e, ns1) \<Longrightarrow> ns1 = ns"
  by (auto simp: PutName_def split: if_splits)

section \<open>Lemmas about the loop of List\<close>

lemma counted_apply:
  "counted load (s, n) k = (case load s k of (x, s1) \<Rightarrow> (x, (s1, Suc n)))"
  by (simp add: counted_def)

lemma List_hydrate_counted_bound:
  "List_hydrate (counted load) limit i refs (s, n) = (out, (s', n'))
   \<Longrightarrow> n \<le> n' \<and> n' \<le> n + 2 * length refs"
proof (induction refs arbitrary: i s n out s' n')
  case Nil
  then show ?case by simp
next
  case (Cons ref rest)
  show ?case
  proof (cases "i \<ge> limit")
    case True
    with Cons.prems show ?thesis by simp
  next
    case False
    obtain x1 s1 where l1: "load s (Path ref) = (x1, s1)" by (cases "load s (Path ref)")
    obtain x2 s2 where l2: "load s1 (Path ref) = (x2, s2)" by (cases "load s1 (Path ref)")
    show ?thesis
    proof (cases x1)
      case (Inr ds)
      obtain o3 s3 n3 where h: "List_hydrate (counted load) limit (i + 1) rest (s1, Suc n) = (o3, (s3, n3))"
        by (metis surj_pair)
      from Cons.IH [OF h] have "Suc n \<le> n3 \<and> n3 \<le> Suc n + 2 * length rest" .
      moreover from Cons.prems False l1 Inr h have "n' = n3"
        by (auto simp: counted_apply split: sum.splits)
      ultimately show ?thesis by simp
    next
      case (Inl err)
      show ?thesis
      proof (cases x2)
        case (Inl err2)
        with Cons.prems False l1 l2 \<open>x1 = Inl err\<close> show ?thesis
          by (auto simp: counted_apply)
      next
        case (Inr ds)
        obtain o3 s3 n3 where h: "List_hydrate (counted load) limit (i + 1) rest (s2, Suc (Suc n)) = (o3, (s3, n3))"
          by (metis surj_pair)
        from Cons.IH [OF h] have "Suc (Suc n) \<le> n3 \<and> n3 \<le> Suc (Suc n) + 2 * length rest" .
        moreover from Cons.prems False l1 l2 Inr \<open>x1 = Inl err\<close> h have "n' = n3"
          by (auto simp: counted_apply split: sum.splits)
        ultimately show ?thesis by simp
      qed
    qed
  qed
qed

lemma List_hydrate_shape:
  "List_hydrate load limit i refs s = (Inr refs', s')
   \<Longrightarrow> length refs' = length refs
     \<and> (\<forall>j < length refs. Name (refs' ! j) = Name (refs ! j) \<and> Path (refs' ! j) = Path (refs ! j)
          \<and> (i + int j < limit \<longrightarrow> Dataset (refs' ! j) \<noteq> None)
          \<and> (\<not> i + int j < limit \<longrightarrow> refs' ! j = refs ! j))"
proof (induction refs arbitrary: i s refs' s')
  case Nil
  then show ?case by simp
next
  case (Cons ref rest)
  show ?case
  proof (cases "i \<ge> limit")
    case True
    with Cons.prems show ?thesis by auto
  next
    case False
    from Cons.prems False obtain ds rs sm where
      tl: "List_hydrate load limit (i + 1) rest sm = (Inr rs, s')"
      and hd: "refs' = ref\<lparr>Dataset := Some ds\<rparr> # rs"
      by (auto split: prod.splits sum.splits)
    from Cons.IH [OF tl] have ih: "length rs = length rest
       \<and> (\<forall>j < length rest. Name (rs ! j) = Name (rest ! j) \<and> Path (rs ! j) = Path (rest ! j)
          \<and> (i + 1 + int j < limit \<longrightarrow> Dataset (rs ! j) \<noteq> None)
          \<and> (\<not> i + 1 + int j < limit \<longrightarrow> rs ! j = rest ! j))" .
    show ?thesis
    proof (intro conjI allI impI)
      show "length refs' = length (ref # rest)" using hd ih by simp
    next
      fix j assume j: "j < length (ref # rest)"
      show "Name (refs' ! j) = Name ((ref # rest) ! j)" using hd ih j by (cases j) auto
      show "Path (refs' ! j) = Path ((ref # rest) ! j)" using hd ih j by (cases j) auto
      { assume "i + int j < limit"
        then show "Dataset (refs' ! j) \<noteq> None" using hd ih j by (cases j) auto }
      { assume "\<not> i + int j < limit"
        then show "refs' ! j = (ref # rest) ! j" using hd ih j False by (cases j) auto }
    qed
  qed
qed

lemma List_hydrate_error:
  "List_hydrate load limit i refs s = (Inl err, s')
   \<Longrightarrow> \<exists>ref e2. ref \<in> set refs
        \<and> err = ''error loading path: '' @ Path ref @ '', err: '' @ e2"
proof (induction refs arbitrary: i s)
  case Nil
  then show ?case by simp
next
  case (Cons ref rest)
  show ?case
  proof (cases "i \<ge> limit")
    case True
    with Cons.prems show ?thesis by simp
  next
    case False
    from Cons.prems False consider
      (here) e2 where "err = ''error loading path: '' @ Path ref @ '', err: '' @ e2"
      | (later) sm where "List_hydrate load limit (i + 1) rest sm = (Inl err, s')"
      by (auto split: prod.splits sum.splits)
    then show ?thesis
    proof cases
      case here
      then show ?thesis by auto
    next
      case later
      from Cons.IH [OF later] show ?thesis by auto
    qed
  qed
qed

lemma List_local:
  assumes "cli r = None" and "repo r = Some w"
  shows "DatasetRequests_List E r p res =
     (case Namespace E (names w) (backing w) (Limit (List_defaults p)) (Offset (List_defaults p)) of
        (Inl err, s1) \<Rightarrow>
          Local (Some (''error getting namespace: '' @ err), List_defaults p, res,
                 with_backing r w s1)
      | (Inr replies, s1) \<Rightarrow>
          (case List_hydrate (LoadDataset E) (Limit (List_defaults p)) 0 replies s1 of
             (Inl err, s2) \<Rightarrow> Local (Some err, List_defaults p, res, with_backing r w s2)
           | (Inr refs, s2) \<Rightarrow> Local (None, List_defaults p, refs, with_backing r w s2)))"
proof -
  have d: "List_defaults p =
      (if Limit p \<le> 0 then (if Offset p < 0 then p\<lparr>Limit := 25, Offset := 0\<rparr> else p\<lparr>Limit := 25\<rparr>)
       else (if Offset p < 0 then p\<lparr>Offset := 0\<rparr> else p))"
    by (simp add: List_defaults_def)
  show ?thesis
    using assms unfolding DatasetRequests_List_def d
    by (cases "Limit p \<le> 0"; cases "Offset p < 0") (simp_all add: Let_def)
qed

lemma List_defaults_idem: "List_defaults (List_defaults p) = List_defaults p"
  by (simp add: List_defaults_def)

lemma List_hydrate_past_limit: "limit \<le> i \<Longrightarrow> List_hydrate load limit i refs s = (Inr refs, s)"
  by (cases refs) auto

lemma List_hydrate_append:
  "List_hydrate load limit i (xs @ ys) s =
     (case List_hydrate load limit i xs s of
        (Inl e, s1) \<Rightarrow> (Inl e, s1)
      | (Inr xs', s1) \<Rightarrow>
          (case List_hydrate load limit (i + int (length xs)) ys s1 of
             (Inl e, s2) \<Rightarrow> (Inl e, s2)
           | (Inr ys', s2) \<Rightarrow> (Inr (xs' @ ys'), s2)))"
proof (induction xs arbitrary: i s)
  case Nil
  show ?case by (simp split: prod.splits sum.splits)
next
  case (Cons ref rest)
  have ix: "i + 1 + int (length rest) = i + int (length (ref # rest))" by simp
  show ?case
  proof (cases "limit \<le> i")
    case True
    then have "limit \<le> i + int (length (ref # rest))" by simp
    with True show ?thesis by (simp add: List_hydrate_past_limit del: List_hydrate.simps)
  next
    case False
    then show ?thesis
      by (simp add: Cons.IH ix split: prod.splits sum.splits)
  qed
qed

lemma List_hydrate_uncounted:
  "List_hydrate (counted load) limit i refs (s, n) = (out, (s', n'))
   \<Longrightarrow> List_hydrate load limit i refs s = (out, s')"
proof (induction refs arbitrary: i s n out s' n')
  case Nil
  then show ?case by simp
next
  case (Cons ref rest)
  show ?case
  proof (cases "i \<ge> limit")
    case True
    with Cons.prems show ?thesis by simp
  next
    case False
    obtain x1 s1 where l1: "load s (Path ref) = (x1, s1)" by (cases "load s (Path ref)")
    obtain x2 s2 where l2: "load s1 (Path ref) = (x2, s2)" by (cases "load s1 (Path ref)")
    show ?thesis
    proof (cases x1)
      case (Inr ds)
      obtain o3 s3 n3 where
        h: "List_hydrate (counted load) limit (i + 1) rest (s1, Suc n) = (o3, (s3, n3))"
        by (metis surj_pair)
      from Cons.IH [OF h] have "List_hydrate load limit (i + 1) rest s1 = (o3, s3)" .
      with Cons.prems False l1 Inr h show ?thesis
        by (auto simp: counted_apply split: sum.splits)
    next
      case (Inl err)
      show ?thesis
      proof (cases x2)
        case (Inl err2)
        with Cons.prems False l1 l2 \<open>x1 = Inl err\<close> show ?thesis
          by (auto simp: counted_apply)
      next
        case (Inr ds)
        obtain o3 s3 n3 where
          h: "List_hydrate (counted load) limit (i + 1) rest (s2, Suc (Suc n)) = (o3, (s3, n3))"
          by (metis surj_pair)
        from Cons.IH [OF h] have "List_hydrate load limit (i + 1) rest s2 = (o3, s3)" .
        with Cons.prems False l1 l2 Inr \<open>x1 = Inl err\<close> h show ?thesis
          by (auto simp: counted_apply split: sum.splits)
      qed
    qed
  qed
qed

lemma List_hydrate_next_ok:
  assumes "List_hydrate (counted load) limit i pre (s, n) = (Inr pre', (s0, n0))"
    and "i + int (length pre) < limit"
    and "load s0 (Path ref) = (Inr ds, t1)"
  shows "List_hydrate (counted load) limit i (pre @ [ref]) (s, n)
           = (Inr (pre' @ [ref\<lparr>Dataset := Some ds\<rparr>]), (t1, n0 + 1))"
  using assms by (simp add: List_hydrate_append counted_apply)

lemma List_hydrate_next_retry:
  assumes "List_hydrate (counted load) limit i pre (s, n) = (Inr pre', (s0, n0))"
    and "i + int (length pre) < limit"
    and "load s0 (Path ref) = (Inl e1, t1)" and "load t1 (Path ref) = (Inr ds, t2)"
  shows "List_hydrate (counted load) limit i (pre @ [ref]) (s, n)
           = (Inr (pre' @ [ref\<lparr>Dataset := Some ds\<rparr>]), (t2, n0 + 2))"
  using assms by (simp add: List_hydrate_append counted_apply)

lemma List_hydrate_next_fails:
  assumes "List_hydrate (counted load) limit i pre (s, n) = (Inr pre', (s0, n0))"
    and "i + int (length pre) < limit"
    and "load s0 (Path ref) = (Inl e1, t1)" and "load t1 (Path ref) = (Inl e2, t2)"
  shows "List_hydrate (counted load) limit i (pre @ ref # rest) (s, n)
           = (Inl (''error loading path: '' @ Path ref @ '', err: '' @ e2), (t2, n0 + 2))"
  using assms by (simp add: List_hydrate_append counted_apply)

lemma List_hydrate_rest_past_limit:
  assumes "List_hydrate (counted load) limit i pre (s, n) = (Inr pre', (s0, n0))"
    and "limit \<le> i + int (length pre)"
  shows "List_hydrate (counted load) limit i (pre @ rest) (s, n) = (Inr (pre' @ rest), (s0, n0))"
  using assms by (simp add: List_hydrate_append List_hydrate_past_limit)

lemma List_hydrate_failed_prefix:
  assumes "List_hydrate (counted load) limit i pre (s, n) = (Inl e, sn)"
  shows "List_hydrate (counted load) limit i (pre @ rest) (s, n) = (Inl e, sn)"
  using assms by (simp add: List_hydrate_append)

section \<open>Lemmas about the loop of Log\<close>

lemma go_sub_one:
  "is_int64 x \<Longrightarrow> go_sub x 1 = (if x = - (2 ^ 63) then 2 ^ 63 - 1 else x - 1)"
  by (auto simp: go_sub_def wrap64_def is_int64_def)

lemma go_sub_one_range: "is_int64 (go_sub x 1)"
  by (simp add: go_sub_def is_int64_wrap64)

lemma go_sub_one_zero: "is_int64 x \<Longrightarrow> go_sub x 1 = 0 \<longleftrightarrow> x = 1"
  by (auto simp: go_sub_one)

lemma Log_count_pos: "is_int64 x \<Longrightarrow> 0 < Log_count x"
  by (auto simp: Log_count_def is_int64_def)

lemma Log_count_step:
  "is_int64 x \<Longrightarrow> x \<noteq> 1 \<Longrightarrow> Suc (Log_count (go_sub x 1)) = Log_count x"
  by (auto simp: Log_count_def go_sub_one is_int64_def)

lemma Log_count_one: "Log_count 1 = 1"
  by (simp add: Log_count_def)

lemma Log_loop_step_ok:
  "LoadDataset E s (Path ref) = (Inr ds, s1) \<Longrightarrow>
   Log_loop E s limit ref log =
     (if go_sub limit 1 = 0 \<or> Previous ds = [] then Some (Inr (log @ [ref\<lparr>Dataset := Some ds\<rparr>]), s1)
      else Log_loop E s1 (go_sub limit 1)
             \<lparr>Name = [], Path = previous_path E ds, Dataset = None\<rparr>
             (log @ [ref\<lparr>Dataset := Some ds\<rparr>]))"
  by (subst Log_loop.simps) (simp add: Let_def previous_path_def)

lemma Log_loop_step_err:
  "LoadDataset E s (Path ref) = (Inl err, s1) \<Longrightarrow> Log_loop E s limit ref log = Some (Inl err, s1)"
  by (subst Log_loop.simps) simp

lemma Log_loop_chain:
  "history_chain E s p ds \<Longrightarrow> is_int64 limit \<Longrightarrow>
   \<exists>s'. Log_loop E s limit \<lparr>Name = [], Path = p, Dataset = None\<rparr> log
          = Some (Inr (log @ take (Log_count limit) (chain_refs E p ds)), s')"
proof (induction ds arbitrary: s p limit log)
  case Nil
  then show ?case by simp
next
  case (Cons d ds)
  from Cons.prems(1) obtain s1 where
    load: "LoadDataset E s p = (Inr d, s1)"
    and rest: "if ds = [] then Previous d = []
               else Previous d \<noteq> [] \<and> history_chain E s1 (previous_path E d) ds"
    by (auto split: prod.splits sum.splits)
  let ?ref = "\<lparr>Name = [], Path = p, Dataset = Some d\<rparr>"
  have step: "Log_loop E s limit \<lparr>Name = [], Path = p, Dataset = None\<rparr> log =
     (if go_sub limit 1 = 0 \<or> Previous d = [] then Some (Inr (log @ [?ref]), s1)
      else Log_loop E s1 (go_sub limit 1)
             \<lparr>Name = [], Path = previous_path E d, Dataset = None\<rparr> (log @ [?ref]))"
    using Log_loop_step_ok [of E s "\<lparr>Name = [], Path = p, Dataset = None\<rparr>" d s1 limit log] load
    by simp
  from Cons.prems(2) have pos: "0 < Log_count limit" by (rule Log_count_pos)
  then obtain k where k: "Log_count limit = Suc k" by (cases "Log_count limit") auto
  show ?case
  proof (cases "ds = []")
    case True
    with rest step k show ?thesis by simp
  next
    case False
    with rest have prev: "Previous d \<noteq> []"
      and chain: "history_chain E s1 (previous_path E d) ds" by auto
    show ?thesis
    proof (cases "limit = 1")
      case True
      then have "go_sub limit 1 = 0" using Cons.prems(2) by (simp add: go_sub_one_zero)
      with step True show ?thesis by (simp add: Log_count_one)
    next
      case ne: False
      with Cons.prems(2) have nz: "go_sub limit 1 \<noteq> 0" by (simp add: go_sub_one_zero)
      from Cons.prems(2) ne have cnt: "Suc (Log_count (go_sub limit 1)) = Log_count limit"
        by (rule Log_count_step)
      from Cons.IH [OF chain go_sub_one_range, of limit "log @ [?ref]"]
      obtain s' where "Log_loop E s1 (go_sub limit 1)
             \<lparr>Name = [], Path = previous_path E d, Dataset = None\<rparr> (log @ [?ref])
           = Some (Inr ((log @ [?ref]) @ take (Log_count (go_sub limit 1))
                 (chain_refs E (previous_path E d) ds)), s')" by blast
      with step nz prev cnt [symmetric] show ?thesis by simp
    qed
  qed
qed

lemma Log_loop_chain_returns:
  "history_chain E s p ds \<Longrightarrow>
   \<exists>n s'. 1 \<le> n \<and> n \<le> length ds \<and>
     Log_loop E s limit \<lparr>Name = [], Path = p, Dataset = None\<rparr> log
       = Some (Inr (log @ take n (chain_refs E p ds)), s')"
proof (induction ds arbitrary: s p limit log)
  case Nil
  then show ?case by simp
next
  case (Cons d ds)
  from Cons.prems(1) obtain s1 where
    load: "LoadDataset E s p = (Inr d, s1)"
    and rest: "if ds = [] then Previous d = []
               else Previous d \<noteq> [] \<and> history_chain E s1 (previous_path E d) ds"
    by (auto split: prod.splits sum.splits)
  let ?ref = "\<lparr>Name = [], Path = p, Dataset = Some d\<rparr>"
  have step: "Log_loop E s limit \<lparr>Name = [], Path = p, Dataset = None\<rparr> log =
     (if go_sub limit 1 = 0 \<or> Previous d = [] then Some (Inr (log @ [?ref]), s1)
      else Log_loop E s1 (go_sub limit 1)
             \<lparr>Name = [], Path = previous_path E d, Dataset = None\<rparr> (log @ [?ref]))"
    using Log_loop_step_ok [of E s "\<lparr>Name = [], Path = p, Dataset = None\<rparr>" d s1 limit log] load
    by simp
  show ?case
  proof (cases "go_sub limit 1 = 0 \<or> Previous d = []")
    case True
    with step have "Log_loop E s limit \<lparr>Name = [], Path = p, Dataset = None\<rparr> log
       = Some (Inr (log @ take 1 (chain_refs E p (d # ds))), s1)" by simp
    then show ?thesis by (intro exI [of _ 1] exI [of _ s1]) simp
  next
    case False
    with rest have chain: "history_chain E s1 (previous_path E d) ds" by (auto split: if_splits)
    from Cons.IH [OF chain, of "go_sub limit 1" "log @ [?ref]"]
    obtain n s' where n: "1 \<le> n" "n \<le> length ds"
      and r: "Log_loop E s1 (go_sub limit 1)
             \<lparr>Name = [], Path = previous_path E d, Dataset = None\<rparr> (log @ [?ref])
           = Some (Inr ((log @ [?ref]) @ take n (chain_refs E (previous_path E d) ds)), s')"
      by blast
    from step False r have "Log_loop E s limit \<lparr>Name = [], Path = p, Dataset = None\<rparr> log
       = Some (Inr (log @ take (Suc n) (chain_refs E p (d # ds))), s')" by simp
    with n show ?thesis by (intro exI [of _ "Suc n"] exI [of _ s']) simp
  qed
qed

lemma length_chain_refs: "length (chain_refs E p ds) = length ds"
  by (induction ds arbitrary: p) auto

lemma Log_count_nonpos: "is_int64 x \<Longrightarrow> x \<le> 0 \<Longrightarrow> 2 ^ 63 \<le> Log_count x"
proof -
  assume a: "is_int64 x" "x \<le> 0"
  then have "(2::int) ^ 63 \<le> x + 2 ^ 64" by (simp add: is_int64_def)
  then have "nat ((2::int) ^ 63) \<le> nat (x + 2 ^ 64)" by (rule nat_mono)
  moreover have "nat ((2::int) ^ 63) = 2 ^ 63" by simp
  ultimately show ?thesis using a by (simp add: Log_count_def)
qed

lemma Log_count_gt_one: "is_int64 x \<Longrightarrow> 1 < Log_count x \<Longrightarrow> x \<noteq> 1"
  by (auto simp: Log_count_one)

lemma Log_loop_breaks:
  "history_breaks E s p ds err \<Longrightarrow> is_int64 limit \<Longrightarrow> length ds < Log_count limit \<Longrightarrow>
   \<exists>s'. Log_loop E s limit \<lparr>Name = [], Path = p, Dataset = None\<rparr> log = Some (Inl err, s')"
proof (induction ds arbitrary: s p limit log)
  case Nil
  then obtain s1 where "LoadDataset E s p = (Inl err, s1)"
    by (auto split: prod.splits sum.splits)
  then have "Log_loop E s limit \<lparr>Name = [], Path = p, Dataset = None\<rparr> log = Some (Inl err, s1)"
    using Log_loop_step_err [of E s "\<lparr>Name = [], Path = p, Dataset = None\<rparr>" err s1 limit log]
    by simp
  then show ?case by blast
next
  case (Cons d ds)
  from Cons.prems(1) obtain s1 where
    load: "LoadDataset E s p = (Inr d, s1)"
    and prev: "Previous d \<noteq> []"
    and rest: "history_breaks E s1 (previous_path E d) ds err"
    by (auto split: prod.splits sum.splits)
  let ?ref = "\<lparr>Name = [], Path = p, Dataset = Some d\<rparr>"
  have step: "Log_loop E s limit \<lparr>Name = [], Path = p, Dataset = None\<rparr> log =
     (if go_sub limit 1 = 0 \<or> Previous d = [] then Some (Inr (log @ [?ref]), s1)
      else Log_loop E s1 (go_sub limit 1)
             \<lparr>Name = [], Path = previous_path E d, Dataset = None\<rparr> (log @ [?ref]))"
    using Log_loop_step_ok [of E s "\<lparr>Name = [], Path = p, Dataset = None\<rparr>" d s1 limit log] load
    by simp
  from Cons.prems(3) have "1 < Log_count limit" by simp
  with Cons.prems(2) have ne: "limit \<noteq> 1" by (rule Log_count_gt_one)
  with Cons.prems(2) have nz: "go_sub limit 1 \<noteq> 0" by (simp add: go_sub_one_zero)
  from Cons.prems(2) ne have "Suc (Log_count (go_sub limit 1)) = Log_count limit"
    by (rule Log_count_step)
  with Cons.prems(3) have "length ds < Log_count (go_sub limit 1)" by simp
  from Cons.IH [OF rest go_sub_one_range this, of "log @ [?ref]"] step nz prev
  show ?case by simp
qed

lemma Log_count_covers:
  assumes "is_int64 limit"
    and "(limit \<le> 0 \<and> length ds < 2 ^ 63) \<or> int (length ds) < limit"
  shows "length ds < Log_count limit"
proof (cases "limit \<le> 0")
  case True
  with assms have "length ds < 2 ^ 63" by auto
  with Log_count_nonpos [OF assms(1) True] show ?thesis by linarith
next
  case False
  with assms show ?thesis by (auto simp: Log_count_def)
qed

section \<open>The history walk\<close>

lemma Log_local:
  assumes "hcli d = None" and "hrepo d = Some w" and "LogPath params \<noteq> []"
    and "Log_loop E (backing w) (Limit params)
           \<lparr>Name = [], Path = LogPath params, Dataset = None\<rparr> [] = Some (Inr refs, s')"
  shows "HistoryRequests_Log E d params res
         = Some (Local (None, refs, d\<lparr>hrepo := Some (w\<lparr>backing := s'\<rparr>)\<rparr>))"
  using assms by (simp add: HistoryRequests_Log_def)

lemma chain_r0: "history_chain mem_env history_mem ''/mem/r0'' [rev0]"
  by (simp add: mem_simps)

lemma chain_r3: "history_chain mem_env history_mem ''/mem/r3'' [rev3, rev2, rev1, rev0]"
  by (simp add: mem_simps)

lemma breaks_r3:
  "history_breaks mem_env broken_mem ''/mem/r3'' [rev3, rev2] ''datastore: key not found''"
  by (simp add: mem_simps broken_mem_def)

text \<open>
  Claim C3. \<open>Log\<close> run locally on a non-empty path: from a root record (empty
  \<open>Previous\<close>) it returns a chain of length 1; from a record three revisions deep it
  returns all 4 records, newest first, when no limit is set (\<open>Limit\<close> zero or below),
  and exactly the 2 most recent ones with \<open>Limit = 2\<close>. When a load fails during the
  walk (after any number of records walked, before the limit stops the walk), \<open>Log\<close>
  returns the error of that load and \<open>*res\<close> is what it was before the call; and
  whenever it returns an error, no chain is written, not even the prefix that was walked.
\<close>

theorem Log_walks_history:
  assumes "hcli d = None" and "hrepo d = Some w" and "LogPath params \<noteq> []"
    and "is_int64 (Limit params)"
  shows "(history_chain E (backing w) (LogPath params) [d0] \<longrightarrow>
            (\<exists>d'. HistoryRequests_Log E d params res
                    = Some (Local (None,
                        [\<lparr>Name = [], Path = LogPath params, Dataset = Some d0\<rparr>], d'))))
       \<and> (history_chain E (backing w) (LogPath params) [d3, d2, d1, d0] \<and> Limit params \<le> 0 \<longrightarrow>
            (\<exists>d'. HistoryRequests_Log E d params res
                    = Some (Local (None,
                        [\<lparr>Name = [], Path = LogPath params, Dataset = Some d3\<rparr>,
                         \<lparr>Name = [], Path = previous_path E d3, Dataset = Some d2\<rparr>,
                         \<lparr>Name = [], Path = previous_path E d2, Dataset = Some d1\<rparr>,
                         \<lparr>Name = [], Path = previous_path E d1, Dataset = Some d0\<rparr>], d'))))
       \<and> (history_chain E (backing w) (LogPath params) [d3, d2, d1, d0] \<and> Limit params = 2 \<longrightarrow>
            (\<exists>d'. HistoryRequests_Log E d params res
                    = Some (Local (None,
                        [\<lparr>Name = [], Path = LogPath params, Dataset = Some d3\<rparr>,
                         \<lparr>Name = [], Path = previous_path E d3, Dataset = Some d2\<rparr>], d'))))
       \<and> (history_breaks E (backing w) (LogPath params) ds err
            \<and> ((Limit params \<le> 0 \<and> length ds < 2 ^ 63) \<or> int (length ds) < Limit params)
            \<longrightarrow>
            (\<exists>d'. HistoryRequests_Log E d params res = Some (Local (Some err, res, d'))))
       \<and> (\<forall>err res' d'. HistoryRequests_Log E d params res = Some (Local (Some err, res', d'))
            \<longrightarrow> res' = res)"
proof (intro conjI impI allI)
  assume c: "history_chain E (backing w) (LogPath params) [d0]"
  from Log_loop_chain [OF c assms(4), of "[]"] obtain s' where
    "Log_loop E (backing w) (Limit params) \<lparr>Name = [], Path = LogPath params, Dataset = None\<rparr> []
       = Some (Inr (take (Log_count (Limit params)) (chain_refs E (LogPath params) [d0])), s')"
    by auto
  moreover from Log_count_pos [OF assms(4)] obtain k where "Log_count (Limit params) = Suc k"
    by (cases "Log_count (Limit params)") auto
  ultimately have "Log_loop E (backing w) (Limit params)
      \<lparr>Name = [], Path = LogPath params, Dataset = None\<rparr> []
       = Some (Inr [\<lparr>Name = [], Path = LogPath params, Dataset = Some d0\<rparr>], s')" by simp
  from Log_local [OF assms(1-3) this]
  show "\<exists>d'. HistoryRequests_Log E d params res
                    = Some (Local (None,
                        [\<lparr>Name = [], Path = LogPath params, Dataset = Some d0\<rparr>], d'))"
    by blast
next
  assume "history_chain E (backing w) (LogPath params) [d3, d2, d1, d0] \<and> Limit params \<le> 0"
  then have c: "history_chain E (backing w) (LogPath params) [d3, d2, d1, d0]"
    and l: "Limit params \<le> 0" by auto
  from Log_loop_chain [OF c assms(4), of "[]"] obtain s' where
    r: "Log_loop E (backing w) (Limit params) \<lparr>Name = [], Path = LogPath params, Dataset = None\<rparr> []
       = Some (Inr (take (Log_count (Limit params))
                      (chain_refs E (LogPath params) [d3, d2, d1, d0])), s')"
    by auto
  have "(4::nat) \<le> 2 ^ 63" by simp
  with Log_count_nonpos [OF assms(4) l] have "4 \<le> Log_count (Limit params)" by linarith
  then have "take (Log_count (Limit params)) (chain_refs E (LogPath params) [d3, d2, d1, d0])
      = chain_refs E (LogPath params) [d3, d2, d1, d0]" by (simp add: length_chain_refs)
  with r have "Log_loop E (backing w) (Limit params)
      \<lparr>Name = [], Path = LogPath params, Dataset = None\<rparr> []
       = Some (Inr [\<lparr>Name = [], Path = LogPath params, Dataset = Some d3\<rparr>,
                         \<lparr>Name = [], Path = previous_path E d3, Dataset = Some d2\<rparr>,
                         \<lparr>Name = [], Path = previous_path E d2, Dataset = Some d1\<rparr>,
                         \<lparr>Name = [], Path = previous_path E d1, Dataset = Some d0\<rparr>], s')"
    by simp
  from Log_local [OF assms(1-3) this]
  show "\<exists>d'. HistoryRequests_Log E d params res
                    = Some (Local (None,
                        [\<lparr>Name = [], Path = LogPath params, Dataset = Some d3\<rparr>,
                         \<lparr>Name = [], Path = previous_path E d3, Dataset = Some d2\<rparr>,
                         \<lparr>Name = [], Path = previous_path E d2, Dataset = Some d1\<rparr>,
                         \<lparr>Name = [], Path = previous_path E d1, Dataset = Some d0\<rparr>], d'))"
    by blast
next
  assume "history_chain E (backing w) (LogPath params) [d3, d2, d1, d0] \<and> Limit params = 2"
  then have c: "history_chain E (backing w) (LogPath params) [d3, d2, d1, d0]"
    and l: "Limit params = 2" by auto
  from Log_loop_chain [OF c assms(4), of "[]"] obtain s' where
    r: "Log_loop E (backing w) (Limit params) \<lparr>Name = [], Path = LogPath params, Dataset = None\<rparr> []
       = Some (Inr (take (Log_count (Limit params))
                      (chain_refs E (LogPath params) [d3, d2, d1, d0])), s')"
    by auto
  from l have "Log_count (Limit params) = Suc (Suc 0)" by (simp add: Log_count_def)
  with r have "Log_loop E (backing w) (Limit params)
      \<lparr>Name = [], Path = LogPath params, Dataset = None\<rparr> []
       = Some (Inr [\<lparr>Name = [], Path = LogPath params, Dataset = Some d3\<rparr>,
                         \<lparr>Name = [], Path = previous_path E d3, Dataset = Some d2\<rparr>], s')"
    by simp
  from Log_local [OF assms(1-3) this]
  show "\<exists>d'. HistoryRequests_Log E d params res
                    = Some (Local (None,
                        [\<lparr>Name = [], Path = LogPath params, Dataset = Some d3\<rparr>,
                         \<lparr>Name = [], Path = previous_path E d3, Dataset = Some d2\<rparr>], d'))"
    by blast
next
  assume a: "history_breaks E (backing w) (LogPath params) ds err
            \<and> ((Limit params \<le> 0 \<and> length ds < 2 ^ 63) \<or> int (length ds) < Limit params)"
  then have b: "history_breaks E (backing w) (LogPath params) ds err" by simp
  from a have "length ds < Log_count (Limit params)"
    by (intro Log_count_covers [OF assms(4)]) simp
  from Log_loop_breaks [OF b assms(4) this, of "[]"] obtain s' where
    "Log_loop E (backing w) (Limit params) \<lparr>Name = [], Path = LogPath params, Dataset = None\<rparr> []
       = Some (Inl err, s')" by blast
  with assms(1-3)
  show "\<exists>d'. HistoryRequests_Log E d params res = Some (Local (Some err, res, d'))"
    by (simp add: HistoryRequests_Log_def)
next
  fix err res' d'
  assume "HistoryRequests_Log E d params res = Some (Local (Some err, res', d'))"
  then show "res' = res"
    by (auto simp: HistoryRequests_Log_def split: option.splits if_splits prod.splits sum.splits)
qed

theorem Log_walks_history_witness:
  "history_chain mem_env history_mem ''/mem/r0'' [rev0]
   \<and> (\<exists>d'. HistoryRequests_Log mem_env history_handler
              \<lparr>OrderBy = [], Limit = 0, Offset = 0, LogPath = ''/mem/r0''\<rparr> []
            = Some (Local (None, [\<lparr>Name = [], Path = ''/mem/r0'', Dataset = Some rev0\<rparr>], d')))
   \<and> history_chain mem_env history_mem ''/mem/r3'' [rev3, rev2, rev1, rev0]
   \<and> (\<exists>d'. HistoryRequests_Log mem_env history_handler
              \<lparr>OrderBy = [], Limit = 0, Offset = 0, LogPath = ''/mem/r3''\<rparr> []
            = Some (Local (None,
                [\<lparr>Name = [], Path = ''/mem/r3'', Dataset = Some rev3\<rparr>,
                 \<lparr>Name = [], Path = ''/mem/r2'', Dataset = Some rev2\<rparr>,
                 \<lparr>Name = [], Path = ''/mem/r1'', Dataset = Some rev1\<rparr>,
                 \<lparr>Name = [], Path = ''/mem/r0'', Dataset = Some rev0\<rparr>], d')))
   \<and> (\<exists>d'. HistoryRequests_Log mem_env history_handler
              \<lparr>OrderBy = [], Limit = 2, Offset = 0, LogPath = ''/mem/r3''\<rparr> []
            = Some (Local (None,
                [\<lparr>Name = [], Path = ''/mem/r3'', Dataset = Some rev3\<rparr>,
                 \<lparr>Name = [], Path = ''/mem/r2'', Dataset = Some rev2\<rparr>], d')))
   \<and> HistoryRequests_Log mem_env history_handler
        \<lparr>OrderBy = [], Limit = 0, Offset = 0, LogPath = ''/mem/gone''\<rparr>
        [\<lparr>Name = ''kept'', Path = [], Dataset = None\<rparr>]
      = Some (Local (Some ''datastore: key not found'',
                [\<lparr>Name = ''kept'', Path = [], Dataset = None\<rparr>], history_handler))
   \<and> history_breaks mem_env broken_mem ''/mem/r3'' [rev3, rev2] ''datastore: key not found''
   \<and> (\<exists>d'. HistoryRequests_Log mem_env broken_handler
              \<lparr>OrderBy = [], Limit = 0, Offset = 0, LogPath = ''/mem/r3''\<rparr>
              [\<lparr>Name = ''kept'', Path = [], Dataset = None\<rparr>]
            = Some (Local (Some ''datastore: key not found'',
                [\<lparr>Name = ''kept'', Path = [], Dataset = None\<rparr>], d')))"
proof -
  let ?w = "\<lparr>names = [(''movies'', ''/mem/r3'')], backing = history_mem\<rparr>"
  have h: "hcli history_handler = None" "hrepo history_handler = Some ?w"
    by (simp_all add: history_handler_def)
  have a: "\<exists>d'. HistoryRequests_Log mem_env history_handler
              \<lparr>OrderBy = [], Limit = 0, Offset = 0, LogPath = ''/mem/r0''\<rparr> []
            = Some (Local (None, [\<lparr>Name = [], Path = ''/mem/r0'', Dataset = Some rev0\<rparr>], d'))"
    using Log_walks_history [where d = history_handler and w = ?w and E = mem_env
        and params = "\<lparr>OrderBy = [], Limit = 0, Offset = 0, LogPath = ''/mem/r0''\<rparr>"
        and res = "[]" and ?d0.0 = rev0, OF h] chain_r0
    by (simp add: is_int64_def)
  have b: "\<exists>d'. HistoryRequests_Log mem_env history_handler
              \<lparr>OrderBy = [], Limit = 0, Offset = 0, LogPath = ''/mem/r3''\<rparr> []
            = Some (Local (None,
                [\<lparr>Name = [], Path = ''/mem/r3'', Dataset = Some rev3\<rparr>,
                 \<lparr>Name = [], Path = ''/mem/r2'', Dataset = Some rev2\<rparr>,
                 \<lparr>Name = [], Path = ''/mem/r1'', Dataset = Some rev1\<rparr>,
                 \<lparr>Name = [], Path = ''/mem/r0'', Dataset = Some rev0\<rparr>], d'))"
    using Log_walks_history [where d = history_handler and w = ?w and E = mem_env
        and params = "\<lparr>OrderBy = [], Limit = 0, Offset = 0, LogPath = ''/mem/r3''\<rparr>"
        and res = "[]" and ?d0.0 = rev0 and ?d1.0 = rev1 and ?d2.0 = rev2 and ?d3.0 = rev3, OF h]
      chain_r3
    by (simp add: is_int64_def mem_simps)
  have c: "\<exists>d'. HistoryRequests_Log mem_env history_handler
              \<lparr>OrderBy = [], Limit = 2, Offset = 0, LogPath = ''/mem/r3''\<rparr> []
            = Some (Local (None,
                [\<lparr>Name = [], Path = ''/mem/r3'', Dataset = Some rev3\<rparr>,
                 \<lparr>Name = [], Path = ''/mem/r2'', Dataset = Some rev2\<rparr>], d'))"
    using Log_walks_history [where d = history_handler and w = ?w and E = mem_env
        and params = "\<lparr>OrderBy = [], Limit = 2, Offset = 0, LogPath = ''/mem/r3''\<rparr>"
        and res = "[]" and ?d0.0 = rev0 and ?d1.0 = rev1 and ?d2.0 = rev2 and ?d3.0 = rev3, OF h]
      chain_r3
    by (simp add: is_int64_def mem_simps)
  have e: "HistoryRequests_Log mem_env history_handler
        \<lparr>OrderBy = [], Limit = 0, Offset = 0, LogPath = ''/mem/gone''\<rparr>
        [\<lparr>Name = ''kept'', Path = [], Dataset = None\<rparr>]
      = Some (Local (Some ''datastore: key not found'',
                [\<lparr>Name = ''kept'', Path = [], Dataset = None\<rparr>], history_handler))"
    by (simp add: HistoryRequests_Log_def history_handler_def
        Log_loop_step_err [where ?s1.0 = history_mem and err = "''datastore: key not found''"]
        mem_env_def mem_load_def history_mem_def)
  let ?wb = "\<lparr>names = [(''movies'', ''/mem/r3'')], backing = broken_mem\<rparr>"
  have hb: "hcli broken_handler = None" "hrepo broken_handler = Some ?wb"
    by (simp_all add: broken_handler_def)
  have f: "\<exists>d'. HistoryRequests_Log mem_env broken_handler
              \<lparr>OrderBy = [], Limit = 0, Offset = 0, LogPath = ''/mem/r3''\<rparr>
              [\<lparr>Name = ''kept'', Path = [], Dataset = None\<rparr>]
            = Some (Local (Some ''datastore: key not found'',
                [\<lparr>Name = ''kept'', Path = [], Dataset = None\<rparr>], d'))"
    using Log_walks_history [where d = broken_handler and w = ?wb and E = mem_env
        and params = "\<lparr>OrderBy = [], Limit = 0, Offset = 0, LogPath = ''/mem/r3''\<rparr>"
        and res = "[\<lparr>Name = ''kept'', Path = [], Dataset = None\<rparr>]"
        and ds = "[rev3, rev2]" and err = "''datastore: key not found''", OF hb] breaks_r3
    by (simp add: is_int64_def)
  from a b c e f chain_r0 chain_r3 breaks_r3 show ?thesis by blast
qed

text \<open>
  Claim C8. When the records reachable from the starting path form a finite chain that
  ends in a root record and every load on the way succeeds, \<open>Log\<close> returns, for every
  \<open>Limit\<close>: the walk is not a \<open>None\<close>. Run locally it returns between one record and
  the whole chain, and with a \<open>Limit\<close> of zero or below it returns the whole chain: only
  the root record stops it.
\<close>

theorem Log_terminates_on_finite_chain:
  assumes "history_chain E (backing w) (LogPath params) ds" and "hrepo d = Some w"
  shows "(\<exists>out. HistoryRequests_Log E d params res = Some out)
       \<and> (hcli d = None \<and> LogPath params \<noteq> [] \<longrightarrow>
            (\<exists>n d'. 1 \<le> n \<and> n \<le> length ds \<and>
               HistoryRequests_Log E d params res
                 = Some (Local (None, take n (chain_refs E (LogPath params) ds), d'))))
       \<and> (hcli d = None \<and> LogPath params \<noteq> [] \<and> is_int64 (Limit params) \<and> Limit params \<le> 0
            \<and> length ds < 2 ^ 63 \<longrightarrow>
            (\<exists>d'. HistoryRequests_Log E d params res
                 = Some (Local (None, chain_refs E (LogPath params) ds, d'))))"
proof (intro conjI impI)
  from Log_loop_chain_returns [OF assms(1), of "Limit params" "[]"]
  obtain n s' where n: "1 \<le> n" "n \<le> length ds"
    and r: "Log_loop E (backing w) (Limit params)
              \<lparr>Name = [], Path = LogPath params, Dataset = None\<rparr> []
            = Some (Inr (take n (chain_refs E (LogPath params) ds)), s')" by auto
  show "\<exists>out. HistoryRequests_Log E d params res = Some out"
    using r assms(2) by (simp add: HistoryRequests_Log_def split: option.splits)
  { assume a: "hcli d = None \<and> LogPath params \<noteq> []"
    then have "HistoryRequests_Log E d params res
       = Some (Local (None, take n (chain_refs E (LogPath params) ds),
                d\<lparr>hrepo := Some (w\<lparr>backing := s'\<rparr>)\<rparr>))"
      using Log_local [OF _ assms(2) _ r] by simp
    with n show "\<exists>n d'. 1 \<le> n \<and> n \<le> length ds \<and>
               HistoryRequests_Log E d params res
                 = Some (Local (None, take n (chain_refs E (LogPath params) ds), d'))"
      by blast }
next
  assume a: "hcli d = None \<and> LogPath params \<noteq> [] \<and> is_int64 (Limit params) \<and> Limit params \<le> 0
            \<and> length ds < 2 ^ 63"
  then have rng: "is_int64 (Limit params)" and np: "Limit params \<le> 0" by auto
  from Log_loop_chain [OF assms(1) rng, of "[]"] obtain s' where
    r: "Log_loop E (backing w) (Limit params) \<lparr>Name = [], Path = LogPath params, Dataset = None\<rparr> []
       = Some (Inr (take (Log_count (Limit params)) (chain_refs E (LogPath params) ds)), s')"
    by auto
  from Log_count_nonpos [OF rng np] a have "length ds \<le> Log_count (Limit params)" by linarith
  then have "take (Log_count (Limit params)) (chain_refs E (LogPath params) ds)
      = chain_refs E (LogPath params) ds" by (simp add: length_chain_refs)
  with r have "Log_loop E (backing w) (Limit params)
      \<lparr>Name = [], Path = LogPath params, Dataset = None\<rparr> []
       = Some (Inr (chain_refs E (LogPath params) ds), s')" by simp
  from Log_local [OF _ assms(2) _ this] a
  show "\<exists>d'. HistoryRequests_Log E d params res
                 = Some (Local (None, chain_refs E (LogPath params) ds, d'))" by blast
qed

theorem Log_terminates_on_finite_chain_witness:
  "history_chain mem_env history_mem ''/mem/r3'' [rev3, rev2, rev1, rev0]
   \<and> (\<exists>out. HistoryRequests_Log mem_env history_handler
               \<lparr>OrderBy = [], Limit = - 7, Offset = 0, LogPath = ''/mem/r3''\<rparr> [] = Some out)
   \<and> (\<exists>d'. HistoryRequests_Log mem_env history_handler
               \<lparr>OrderBy = [], Limit = - 7, Offset = 0, LogPath = ''/mem/r3''\<rparr> []
             = Some (Local (None,
                 chain_refs mem_env ''/mem/r3'' [rev3, rev2, rev1, rev0], d')))"
proof -
  let ?w = "\<lparr>names = [(''movies'', ''/mem/r3'')], backing = history_mem\<rparr>"
  have h: "hrepo history_handler = Some ?w" "hcli history_handler = None"
    by (simp_all add: history_handler_def)
  have c: "history_chain mem_env (backing ?w)
     (LogPath \<lparr>OrderBy = [], Limit = - 7, Offset = 0, LogPath = ''/mem/r3''\<rparr>)
     [rev3, rev2, rev1, rev0]" using chain_r3 by simp
  from Log_terminates_on_finite_chain [OF c h(1), of "[]"] h(2) chain_r3
  show ?thesis by (simp add: is_int64_def)
qed

section \<open>Listing datasets\<close>

text \<open>
  Claim C7, as the code has it. \<open>List\<close>, run locally, never fails on its parameters:
  a \<open>Limit\<close> of at most 0 is replaced by 25 and a negative \<open>Offset\<close> by 0 in the
  parameter struct, and the call behaves as the call with those defaults. It asks the
  naming store for the page \<open>(Limit, Offset)\<close>; a failure of that is the call's failure.
  The entries of the page below index \<open>Limit\<close> (all of them, when the page has at most
  \<open>Limit\<close> entries) come back with their dataset loaded, name and path unchanged; the
  entries from index \<open>Limit\<close> on come back as they are, without a load. Entry by entry,
  after any prefix of the page that was hydrated: one load when the first succeeds, and
  the dataset is the one loaded; exactly two loads when the first fails, and the dataset
  is that of the second load; when the second fails too the whole call fails with that
  entry's error after these two loads, \<open>*res\<close> is left alone and no further entry is
  loaded. Counting the loads does not change the result.
\<close>

theorem List_normalizes_and_retries_once:
  assumes "cli r = None" and "repo r = Some w"
  shows "Limit (List_defaults p) = (if Limit p \<le> 0 then 25 else Limit p)
       \<and> Offset (List_defaults p) = (if Offset p < 0 then 0 else Offset p)
       \<and> OrderBy (List_defaults p) = OrderBy p
       \<and> (\<exists>err refs r'. DatasetRequests_List E r p res = Local (err, List_defaults p, refs, r'))
       \<and> DatasetRequests_List E r p res = DatasetRequests_List E r (List_defaults p) res
       \<and> (Namespace E (names w) (backing w) (Limit (List_defaults p)) (Offset (List_defaults p))
            = (Inl nerr, s1) \<longrightarrow>
          DatasetRequests_List E r p res
            = Local (Some (''error getting namespace: '' @ nerr), List_defaults p, res,
                     with_backing r w s1))
       \<and> (Namespace E (names w) (backing w) (Limit (List_defaults p)) (Offset (List_defaults p))
            = (Inr replies, s1)
          \<and> List_hydrate (LoadDataset E) (Limit (List_defaults p)) 0 replies s1 = (Inr refs, s2)
          \<longrightarrow>
          DatasetRequests_List E r p res = Local (None, List_defaults p, refs, with_backing r w s2)
          \<and> length refs = length replies
          \<and> (\<forall>j < length replies.
                Name (refs ! j) = Name (replies ! j) \<and> Path (refs ! j) = Path (replies ! j)
                \<and> (int j < Limit (List_defaults p) \<longrightarrow> Dataset (refs ! j) \<noteq> None)
                \<and> (Limit (List_defaults p) \<le> int j \<longrightarrow> refs ! j = replies ! j)))
       \<and> (Namespace E (names w) (backing w) (Limit (List_defaults p)) (Offset (List_defaults p))
            = (Inr replies, s1)
          \<and> List_hydrate (LoadDataset E) (Limit (List_defaults p)) 0 replies s1 = (Inl herr, s2)
          \<longrightarrow>
          DatasetRequests_List E r p res = Local (Some herr, List_defaults p, res, with_backing r w s2)
          \<and> (\<exists>ref e2. ref \<in> set replies
                \<and> herr = ''error loading path: '' @ Path ref @ '', err: '' @ e2))
       \<and> (List_hydrate (counted load) limit i entries (s, n) = (out, (s', n'))
          \<longrightarrow> n \<le> n' \<and> n' \<le> n + 2 * length entries
              \<and> List_hydrate load limit i entries s = (out, s'))
       \<and> (List_hydrate (counted load) limit i pre (s, n) = (Inr pre', (s0, n0))
          \<and> i + int (length pre) < limit \<and> load s0 (Path ref) = (Inr ds, t1) \<longrightarrow>
          List_hydrate (counted load) limit i (pre @ [ref]) (s, n)
            = (Inr (pre' @ [ref\<lparr>Dataset := Some ds\<rparr>]), (t1, n0 + 1)))
       \<and> (List_hydrate (counted load) limit i pre (s, n) = (Inr pre', (s0, n0))
          \<and> i + int (length pre) < limit
          \<and> load s0 (Path ref) = (Inl e1, t1) \<and> load t1 (Path ref) = (Inr ds, t2) \<longrightarrow>
          List_hydrate (counted load) limit i (pre @ [ref]) (s, n)
            = (Inr (pre' @ [ref\<lparr>Dataset := Some ds\<rparr>]), (t2, n0 + 2)))
       \<and> (List_hydrate (counted load) limit i pre (s, n) = (Inr pre', (s0, n0))
          \<and> i + int (length pre) < limit
          \<and> load s0 (Path ref) = (Inl e1, t1) \<and> load t1 (Path ref) = (Inl e2, t2) \<longrightarrow>
          List_hydrate (counted load) limit i (pre @ ref # rest) (s, n)
            = (Inl (''error loading path: '' @ Path ref @ '', err: '' @ e2), (t2, n0 + 2)))
       \<and> (List_hydrate (counted load) limit i pre (s, n) = (Inr pre', (s0, n0))
          \<and> limit \<le> i + int (length pre) \<longrightarrow>
          List_hydrate (counted load) limit i (pre @ rest) (s, n) = (Inr (pre' @ rest), (s0, n0)))
       \<and> (List_hydrate (counted load) limit i pre (s, n) = (Inl herr, sn) \<longrightarrow>
          List_hydrate (counted load) limit i (pre @ rest) (s, n) = (Inl herr, sn))"
proof (intro conjI impI)
  show "Limit (List_defaults p) = (if Limit p \<le> 0 then 25 else Limit p)"
    by (simp add: List_defaults_def)
  show "Offset (List_defaults p) = (if Offset p < 0 then 0 else Offset p)"
    by (simp add: List_defaults_def)
  show "OrderBy (List_defaults p) = OrderBy p"
    by (simp add: List_defaults_def)
  show "\<exists>err refs r'. DatasetRequests_List E r p res = Local (err, List_defaults p, refs, r')"
    by (simp add: List_local [OF assms] split: prod.splits sum.splits)
  show "DatasetRequests_List E r p res = DatasetRequests_List E r (List_defaults p) res"
    unfolding List_local [OF assms] List_defaults_idem by (rule refl)
next
  assume "Namespace E (names w) (backing w) (Limit (List_defaults p)) (Offset (List_defaults p))
            = (Inl nerr, s1)"
  then show "DatasetRequests_List E r p res
            = Local (Some (''error getting namespace: '' @ nerr), List_defaults p, res,
                     with_backing r w s1)"
    by (simp add: List_local [OF assms])
next
  assume a: "Namespace E (names w) (backing w) (Limit (List_defaults p)) (Offset (List_defaults p))
            = (Inr replies, s1)
          \<and> List_hydrate (LoadDataset E) (Limit (List_defaults p)) 0 replies s1 = (Inr refs, s2)"
  then show "DatasetRequests_List E r p res
      = Local (None, List_defaults p, refs, with_backing r w s2)"
    by (simp add: List_local [OF assms])
  from a have h: "List_hydrate (LoadDataset E) (Limit (List_defaults p)) 0 replies s1
      = (Inr refs, s2)" by simp
  from List_hydrate_shape [OF h] show "length refs = length replies" by simp
  from List_hydrate_shape [OF h]
  show "\<forall>j < length replies.
                Name (refs ! j) = Name (replies ! j) \<and> Path (refs ! j) = Path (replies ! j)
                \<and> (int j < Limit (List_defaults p) \<longrightarrow> Dataset (refs ! j) \<noteq> None)
                \<and> (Limit (List_defaults p) \<le> int j \<longrightarrow> refs ! j = replies ! j)"
    by simp
next
  assume a: "Namespace E (names w) (backing w) (Limit (List_defaults p)) (Offset (List_defaults p))
            = (Inr replies, s1)
          \<and> List_hydrate (LoadDataset E) (Limit (List_defaults p)) 0 replies s1 = (Inl herr, s2)"
  then show "DatasetRequests_List E r p res
      = Local (Some herr, List_defaults p, res, with_backing r w s2)"
    by (simp add: List_local [OF assms])
  from a have h: "List_hydrate (LoadDataset E) (Limit (List_defaults p)) 0 replies s1
      = (Inl herr, s2)" by simp
  from List_hydrate_error [OF h]
  show "\<exists>ref e2. ref \<in> set replies
                \<and> herr = ''error loading path: '' @ Path ref @ '', err: '' @ e2" .
next
  assume h: "List_hydrate (counted load) limit i entries (s, n) = (out, (s', n'))"
  from List_hydrate_counted_bound [OF h] show "n \<le> n'" by simp
  from List_hydrate_counted_bound [OF h] show "n' \<le> n + 2 * length entries" by simp
  from List_hydrate_uncounted [OF h] show "List_hydrate load limit i entries s = (out, s')" .
next
  assume a: "List_hydrate (counted load) limit i pre (s, n) = (Inr pre', (s0, n0))
          \<and> i + int (length pre) < limit \<and> load s0 (Path ref) = (Inr ds, t1)"
  show "List_hydrate (counted load) limit i (pre @ [ref]) (s, n)
            = (Inr (pre' @ [ref\<lparr>Dataset := Some ds\<rparr>]), (t1, n0 + 1))"
    by (rule List_hydrate_next_ok [OF a [THEN conjunct1] a [THEN conjunct2, THEN conjunct1]
          a [THEN conjunct2, THEN conjunct2]])
next
  assume a: "List_hydrate (counted load) limit i pre (s, n) = (Inr pre', (s0, n0))
          \<and> i + int (length pre) < limit
          \<and> load s0 (Path ref) = (Inl e1, t1) \<and> load t1 (Path ref) = (Inr ds, t2)"
  show "List_hydrate (counted load) limit i (pre @ [ref]) (s, n)
            = (Inr (pre' @ [ref\<lparr>Dataset := Some ds\<rparr>]), (t2, n0 + 2))"
    by (rule List_hydrate_next_retry [OF a [THEN conjunct1] a [THEN conjunct2, THEN conjunct1]
          a [THEN conjunct2, THEN conjunct2, THEN conjunct1]
          a [THEN conjunct2, THEN conjunct2, THEN conjunct2]])
next
  assume a: "List_hydrate (counted load) limit i pre (s, n) = (Inr pre', (s0, n0))
          \<and> i + int (length pre) < limit
          \<and> load s0 (Path ref) = (Inl e1, t1) \<and> load t1 (Path ref) = (Inl e2, t2)"
  show "List_hydrate (counted load) limit i (pre @ ref # rest) (s, n)
            = (Inl (''error loading path: '' @ Path ref @ '', err: '' @ e2), (t2, n0 + 2))"
    by (rule List_hydrate_next_fails [OF a [THEN conjunct1] a [THEN conjunct2, THEN conjunct1]
          a [THEN conjunct2, THEN conjunct2, THEN conjunct1]
          a [THEN conjunct2, THEN conjunct2, THEN conjunct2]])
next
  assume a: "List_hydrate (counted load) limit i pre (s, n) = (Inr pre', (s0, n0))
          \<and> limit \<le> i + int (length pre)"
  show "List_hydrate (counted load) limit i (pre @ rest) (s, n)
      = (Inr (pre' @ rest), (s0, n0))"
    by (rule List_hydrate_rest_past_limit [OF a [THEN conjunct1] a [THEN conjunct2]])
next
  assume "List_hydrate (counted load) limit i pre (s, n) = (Inl herr, sn)"
  then show "List_hydrate (counted load) limit i (pre @ rest) (s, n) = (Inl herr, sn)"
    by (rule List_hydrate_failed_prefix)
qed


theorem List_normalizes_and_retries_once_witness:
  "DatasetRequests_List mem_env flaky_handler \<lparr>OrderBy = ''chaos'', Limit = 0, Offset = - 50\<rparr> []
     = Local (None, \<lparr>OrderBy = ''chaos'', Limit = 25, Offset = 0\<rparr>,
              [\<lparr>Name = ''movies'', Path = ''/mem/r3'', Dataset = Some rev3\<rparr>], dataset_handler)
   \<and> List_hydrate (counted mem_load) 25 0
        [\<lparr>Name = ''movies'', Path = ''/mem/r3'', Dataset = None\<rparr>] (flaky_mem, 0)
      = (Inr [\<lparr>Name = ''movies'', Path = ''/mem/r3'', Dataset = Some rev3\<rparr>], (history_mem, 2))
   \<and> List_hydrate (counted mem_load) 25 0
        [\<lparr>Name = ''movies'', Path = ''/mem/r3'', Dataset = None\<rparr>,
         \<lparr>Name = ''first'', Path = ''/mem/r0'', Dataset = None\<rparr>] (flaky_mem, 0)
      = (Inr [\<lparr>Name = ''movies'', Path = ''/mem/r3'', Dataset = Some rev3\<rparr>,
              \<lparr>Name = ''first'', Path = ''/mem/r0'', Dataset = Some rev0\<rparr>], (history_mem, 3))
   \<and> List_hydrate mem_load 25 0
        [\<lparr>Name = ''movies'', Path = ''/mem/r3'', Dataset = None\<rparr>,
         \<lparr>Name = ''first'', Path = ''/mem/r0'', Dataset = None\<rparr>] flaky_mem
      = (Inr [\<lparr>Name = ''movies'', Path = ''/mem/r3'', Dataset = Some rev3\<rparr>,
              \<lparr>Name = ''first'', Path = ''/mem/r0'', Dataset = Some rev0\<rparr>], history_mem)
   \<and> List_hydrate (counted mem_load) 25 0
        [\<lparr>Name = ''movies'', Path = ''/mem/r3'', Dataset = None\<rparr>,
         \<lparr>Name = ''lost'', Path = ''/mem/nowhere'', Dataset = None\<rparr>,
         \<lparr>Name = ''first'', Path = ''/mem/r0'', Dataset = None\<rparr>] (history_mem, 0)
      = (Inl ''error loading path: /mem/nowhere, err: datastore: key not found'',
         (history_mem, 3))
   \<and> List_hydrate (counted mem_load) 1 0
        [\<lparr>Name = ''movies'', Path = ''/mem/r3'', Dataset = None\<rparr>,
         \<lparr>Name = ''first'', Path = ''/mem/r0'', Dataset = None\<rparr>] (history_mem, 0)
      = (Inr [\<lparr>Name = ''movies'', Path = ''/mem/r3'', Dataset = Some rev3\<rparr>,
              \<lparr>Name = ''first'', Path = ''/mem/r0'', Dataset = None\<rparr>], (history_mem, 1))"
proof -
  let ?w = "\<lparr>names = [(''movies'', ''/mem/r3'')], backing = flaky_mem\<rparr>"
  let ?p = "\<lparr>OrderBy = ''chaos'', Limit = 0, Offset = - 50\<rparr>"
  let ?m = "\<lparr>Name = ''movies'', Path = ''/mem/r3'', Dataset = None\<rparr>"
  let ?f = "\<lparr>Name = ''first'', Path = ''/mem/r0'', Dataset = None\<rparr>"
  let ?l = "\<lparr>Name = ''lost'', Path = ''/mem/nowhere'', Dataset = None\<rparr>"
  let ?m' = "\<lparr>Name = ''movies'', Path = ''/mem/r3'', Dataset = Some rev3\<rparr>"
  have h: "cli flaky_handler = None" "repo flaky_handler = Some ?w"
    by (simp_all add: flaky_handler_def)
  have d: "List_defaults ?p = \<lparr>OrderBy = ''chaos'', Limit = 25, Offset = 0\<rparr>"
    by (simp add: List_defaults_def)
  have ns: "Namespace mem_env (names ?w) (backing ?w) (Limit (List_defaults ?p))
        (Offset (List_defaults ?p)) = (Inr [?m], flaky_mem)"
    by (simp add: mem_env_def d)
  have hy: "List_hydrate (LoadDataset mem_env) (Limit (List_defaults ?p)) 0 [?m] flaky_mem
      = (Inr [?m'], history_mem)"
    by (simp add: mem_simps d)
  have wb: "with_backing flaky_handler ?w history_mem = dataset_handler"
    by (simp add: with_backing_def flaky_handler_def dataset_handler_def)
  have l3: "mem_load history_mem (Path ?m) = (Inr rev3, history_mem)"
    by (simp add: mem_simps)
  have l0: "mem_load history_mem (Path ?f) = (Inr rev0, history_mem)"
    by (simp add: mem_simps)
  have lf: "mem_load flaky_mem (Path ?m)
      = (Inl ''datastore: temporarily unavailable'', history_mem)"
    by (simp add: mem_simps)
  have ln: "mem_load history_mem (Path ?l) = (Inl ''datastore: key not found'', history_mem)"
    by (simp add: mem_simps)
  have e0: "List_hydrate (counted mem_load) 25 0 [] (flaky_mem, 0) = (Inr [], (flaky_mem, 0))"
    by simp
  have e1: "List_hydrate (counted mem_load) 25 0 [] (history_mem, 0) = (Inr [], (history_mem, 0))"
    by simp
  have e2: "List_hydrate (counted mem_load) 1 0 [] (history_mem, 0) = (Inr [], (history_mem, 0))"
    by simp
  have i0: "(0::int) + int (length ([]::DatasetRef list)) < 25" by simp
  have i1: "(0::int) + int (length [?m]) < 25" by simp
  have j0: "(0::int) + int (length ([]::DatasetRef list)) < 1" by simp
  have j1: "(1::int) \<le> 0 + int (length [?m])" by simp
  note T = List_normalizes_and_retries_once [OF h]
  note Ta = List_normalizes_and_retries_once [OF h, where replies = "[?m]"
      and ?s1.0 = flaky_mem]
  note T7 = Ta [THEN conjunct2, THEN conjunct2, THEN conjunct2, THEN conjunct2, THEN conjunct2, THEN conjunct2, THEN conjunct1, THEN mp, THEN conjunct1]
  note T9 = T [THEN conjunct2, THEN conjunct2, THEN conjunct2, THEN conjunct2, THEN conjunct2, THEN conjunct2, THEN conjunct2, THEN conjunct2, THEN conjunct1, THEN mp, THEN conjunct2, THEN conjunct2]
  note T10 = T [THEN conjunct2, THEN conjunct2, THEN conjunct2, THEN conjunct2, THEN conjunct2, THEN conjunct2, THEN conjunct2, THEN conjunct2, THEN conjunct2, THEN conjunct1, THEN mp]
  note T11 = T [THEN conjunct2, THEN conjunct2, THEN conjunct2, THEN conjunct2, THEN conjunct2, THEN conjunct2, THEN conjunct2, THEN conjunct2, THEN conjunct2, THEN conjunct2, THEN conjunct1, THEN mp]
  note Tr = List_normalizes_and_retries_once [OF h, where rest = "[?f]"]
  note T12 = Tr [THEN conjunct2, THEN conjunct2, THEN conjunct2, THEN conjunct2, THEN conjunct2, THEN conjunct2, THEN conjunct2, THEN conjunct2, THEN conjunct2, THEN conjunct2, THEN conjunct2, THEN conjunct1, THEN mp]
  note T13 = Tr [THEN conjunct2, THEN conjunct2, THEN conjunct2, THEN conjunct2, THEN conjunct2, THEN conjunct2, THEN conjunct2, THEN conjunct2, THEN conjunct2, THEN conjunct2, THEN conjunct2, THEN conjunct2, THEN conjunct1, THEN mp]
  have "DatasetRequests_List mem_env flaky_handler ?p []
     = Local (None, List_defaults ?p, [?m'], with_backing flaky_handler ?w history_mem)"
    by (rule T7) (rule conjI [OF ns hy])
  then have a: "DatasetRequests_List mem_env flaky_handler ?p []
     = Local (None, \<lparr>OrderBy = ''chaos'', Limit = 25, Offset = 0\<rparr>, [?m'], dataset_handler)"
    by (simp only: d wb)
  from T11 [OF conjI [OF e0 conjI [OF i0 conjI [OF lf l3]]]]
  have b: "List_hydrate (counted mem_load) 25 0 [?m] (flaky_mem, 0)
      = (Inr [?m'], (history_mem, 2))"
    by simp
  from T10 [OF conjI [OF b conjI [OF i1 l0]]]
  have c: "List_hydrate (counted mem_load) 25 0 [?m, ?f] (flaky_mem, 0)
      = (Inr [?m', \<lparr>Name = ''first'', Path = ''/mem/r0'', Dataset = Some rev0\<rparr>],
         (history_mem, 3))"
    by simp
  from T9 [OF c]
  have c': "List_hydrate mem_load 25 0 [?m, ?f] flaky_mem
      = (Inr [?m', \<lparr>Name = ''first'', Path = ''/mem/r0'', Dataset = Some rev0\<rparr>],
         history_mem)" .
  from T10 [OF conjI [OF e1 conjI [OF i0 l3]]]
  have g: "List_hydrate (counted mem_load) 25 0 [?m] (history_mem, 0)
      = (Inr [?m'], (history_mem, 1))"
    by simp
  from T12 [OF conjI [OF g conjI [OF i1 conjI [OF ln ln]]]]
  have e: "List_hydrate (counted mem_load) 25 0 [?m, ?l, ?f] (history_mem, 0)
      = (Inl ''error loading path: /mem/nowhere, err: datastore: key not found'',
         (history_mem, 3))"
    by simp
  from T10 [OF conjI [OF e2 conjI [OF j0 l3]]]
  have g1: "List_hydrate (counted mem_load) 1 0 [?m] (history_mem, 0)
      = (Inr [?m'], (history_mem, 1))"
    by simp
  from T13 [OF conjI [OF g1 j1]]
  have f: "List_hydrate (counted mem_load) 1 0 [?m, ?f] (history_mem, 0)
      = (Inr [?m', ?f], (history_mem, 1))"
    by simp
  from a b c c' e f show ?thesis by blast
qed

text \<open>
  The claim as stated has every entry of the page hydrated. The loop stops at index
  \<open>Limit\<close>: when the naming store answers with more than \<open>Limit\<close> entries, the entries
  from index \<open>Limit\<close> on come back without a dataset, and the call succeeds.
\<close>

theorem List_leaves_entries_past_limit:
  "DatasetRequests_List unpaged_env two_handler \<lparr>OrderBy = [], Limit = 1, Offset = 0\<rparr> []
     = Local (None, \<lparr>OrderBy = [], Limit = 1, Offset = 0\<rparr>,
              [\<lparr>Name = ''movies'', Path = ''/mem/r3'', Dataset = Some rev3\<rparr>,
               \<lparr>Name = ''first'', Path = ''/mem/r0'', Dataset = None\<rparr>], two_handler)"
  by (simp add: DatasetRequests_List_def unpaged_env_def two_handler_def mem_simps
      with_backing_def)

section \<open>Pagination\<close>

text \<open>
  Claim C9, as the code has it. For \<open>page \<ge> 1\<close> and \<open>pageSize \<ge> 1\<close> whose offset
  \<open>(page - 1) * pageSize\<close> fits Go's \<open>int\<close>, \<open>NewListParams\<close> yields \<open>Limit = pageSize\<close> and
  \<open>Offset = (page - 1) * pageSize\<close>, and \<open>Page()\<close> of the result has number
  \<open>Offset / size + 1 = page\<close> and size \<open>pageSize\<close>. The coercions, where the code makes
  them: \<open>Page()\<close> uses the default page size for a \<open>Limit\<close> of at most 0;
  \<open>NewListParams\<close> uses it for a \<open>pageSize\<close> of at most 0, and gives offset zero for a
  page below 1; a negative \<open>Offset\<close> is coerced to zero by \<open>DatasetRequests.List\<close>, which
  behaves as the call with \<open>Offset = 0\<close> and leaves 0 in the parameter struct.
\<close>

theorem pagination_exact_in_range:
  "(is_int64 page \<and> is_int64 pageSize \<and> 1 \<le> page \<and> 1 \<le> pageSize
      \<and> (page - 1) * pageSize < 2 ^ 63 \<longrightarrow>
      Limit (NewListParams orderBy page pageSize) = pageSize
      \<and> Offset (NewListParams orderBy page pageSize) = (page - 1) * pageSize
      \<and> Number (ListParams_Page (NewListParams orderBy page pageSize))
          = Offset (NewListParams orderBy page pageSize) sdiv pageSize + 1
      \<and> Number (ListParams_Page (NewListParams orderBy page pageSize)) = page
      \<and> Size (ListParams_Page (NewListParams orderBy page pageSize)) = pageSize)
   \<and> (Limit lp \<le> 0 \<longrightarrow> Size (ListParams_Page lp) = DefaultPageSize)
   \<and> (pageSize \<le> 0 \<longrightarrow> Limit (NewListParams orderBy page pageSize) = DefaultPageSize)
   \<and> (page < 1 \<longrightarrow> Offset (NewListParams orderBy page pageSize) = 0)
   \<and> (cli r = None \<and> repo r = Some w \<and> Offset lp < 0 \<longrightarrow>
        DatasetRequests_List E r lp res = DatasetRequests_List E r (lp\<lparr>Offset := 0\<rparr>) res
        \<and> (\<exists>err lp' refs r'.
              DatasetRequests_List E r lp res = Local (err, lp', refs, r') \<and> Offset lp' = 0))"
proof (intro conjI impI)
  assume h: "is_int64 page \<and> is_int64 pageSize \<and> 1 \<le> page \<and> 1 \<le> pageSize
      \<and> (page - 1) * pageSize < 2 ^ 63"
  then have p1: "is_int64 (page - 1)" by (simp add: is_int64_def)
  from h have nonneg: "0 \<le> (page - 1) * pageSize" by simp
  have "- (2 ^ 63) \<le> (0::int)" by simp
  with nonneg have "- (2 ^ 63) \<le> (page - 1) * pageSize" by (rule order_trans [rotated])
  with h have off: "is_int64 ((page - 1) * pageSize)" by (simp add: is_int64_def)
  from h have lim: "Limit (NewListParams orderBy page pageSize) = pageSize"
    by (simp add: NewListParams_def Let_def)
  from h p1 off have offs: "Offset (NewListParams orderBy page pageSize) = (page - 1) * pageSize"
    by (simp add: NewListParams_def Let_def go_mul_def go_sub_def wrap64_id)
  from h have quot: "((page - 1) * pageSize) sdiv pageSize = page - 1"
    by (intro sdiv_mult_cancel) simp_all
  from h p1 have num: "Number (ListParams_Page (NewListParams orderBy page pageSize)) = page"
    by (simp add: ListParams_Page_def Let_def NewPage_def lim offs quot go_add_def go_div_def
        wrap64_id)
  show "Limit (NewListParams orderBy page pageSize) = pageSize" by (rule lim)
  show "Offset (NewListParams orderBy page pageSize) = (page - 1) * pageSize" by (rule offs)
  show "Number (ListParams_Page (NewListParams orderBy page pageSize))
          = Offset (NewListParams orderBy page pageSize) sdiv pageSize + 1"
    by (simp add: num offs quot)
  show "Number (ListParams_Page (NewListParams orderBy page pageSize)) = page" by (rule num)
  from h show "Size (ListParams_Page (NewListParams orderBy page pageSize)) = pageSize"
    by (simp add: ListParams_Page_def Let_def NewPage_def lim)
next
  assume "Limit lp \<le> 0"
  then show "Size (ListParams_Page lp) = DefaultPageSize"
    by (simp add: ListParams_Page_def Let_def NewPage_def)
next
  assume "pageSize \<le> 0"
  then show "Limit (NewListParams orderBy page pageSize) = DefaultPageSize"
    by (simp add: NewListParams_def Let_def)
next
  assume "page < 1"
  then show "Offset (NewListParams orderBy page pageSize) = 0"
    by (simp add: NewListParams_def Let_def go_mul_def go_sub_def wrap64_def)
next
  assume a: "cli r = None \<and> repo r = Some w \<and> Offset lp < 0"
  then have h: "cli r = None" "repo r = Some w" by simp_all
  from a have d: "List_defaults (lp\<lparr>Offset := 0\<rparr>) = List_defaults lp"
    by (simp add: List_defaults_def)
  show "DatasetRequests_List E r lp res = DatasetRequests_List E r (lp\<lparr>Offset := 0\<rparr>) res"
    unfolding List_local [OF h] d by (rule refl)
  from a have "Offset (List_defaults lp) = 0" by (simp add: List_defaults_def)
  then show "\<exists>err lp' refs r'.
      DatasetRequests_List E r lp res = Local (err, lp', refs, r') \<and> Offset lp' = 0"
    by (simp add: List_local [OF h] split: prod.splits sum.splits)
qed

theorem pagination_exact_in_range_witness:
  "Limit (NewListParams ''created'' 3 25) = 25
   \<and> Offset (NewListParams ''created'' 3 25) = 50
   \<and> Number (ListParams_Page (NewListParams ''created'' 3 25)) = 3
   \<and> Size (ListParams_Page (NewListParams ''created'' 3 25)) = 25
   \<and> Size (ListParams_Page \<lparr>OrderBy = [], Limit = - 5, Offset = 0\<rparr>) = 100
   \<and> Limit (NewListParams ''created'' 0 0) = 100
   \<and> Offset (NewListParams ''created'' 0 0) = 0
   \<and> DatasetRequests_List mem_env dataset_handler \<lparr>OrderBy = [], Limit = 10, Offset = - 20\<rparr> []
       = DatasetRequests_List mem_env dataset_handler \<lparr>OrderBy = [], Limit = 10, Offset = 0\<rparr> []
   \<and> (\<exists>err lp' refs r'.
         DatasetRequests_List mem_env dataset_handler
           \<lparr>OrderBy = [], Limit = 10, Offset = - 20\<rparr> [] = Local (err, lp', refs, r')
         \<and> Offset lp' = 0)"
proof -
  let ?w = "\<lparr>names = [(''movies'', ''/mem/r3'')], backing = history_mem\<rparr>"
  have h: "cli dataset_handler = None" "repo dataset_handler = Some ?w"
    by (simp_all add: dataset_handler_def)
  note T = pagination_exact_in_range [where orderBy = "''created''"
      and lp = "\<lparr>OrderBy = [], Limit = - 5, Offset = 0\<rparr>"]
  have a: "Limit (NewListParams ''created'' 3 25) = 25
   \<and> Offset (NewListParams ''created'' 3 25) = 50
   \<and> Number (ListParams_Page (NewListParams ''created'' 3 25)) = 3
   \<and> Size (ListParams_Page (NewListParams ''created'' 3 25)) = 25
   \<and> Size (ListParams_Page \<lparr>OrderBy = [], Limit = - 5, Offset = 0\<rparr>) = 100"
    using T [where page = 3 and pageSize = 25] by (simp add: is_int64_def DefaultPageSize_def)
  have b: "Limit (NewListParams ''created'' 0 0) = 100
   \<and> Offset (NewListParams ''created'' 0 0) = 0"
    using T [where page = 0 and pageSize = 0] by (simp add: DefaultPageSize_def)
  have c: "DatasetRequests_List mem_env dataset_handler
             \<lparr>OrderBy = [], Limit = 10, Offset = - 20\<rparr> []
       = DatasetRequests_List mem_env dataset_handler \<lparr>OrderBy = [], Limit = 10, Offset = 0\<rparr> []
   \<and> (\<exists>err lp' refs r'.
         DatasetRequests_List mem_env dataset_handler
           \<lparr>OrderBy = [], Limit = 10, Offset = - 20\<rparr> [] = Local (err, lp', refs, r')
         \<and> Offset lp' = 0)"
  proof -
    have neg: "Offset \<lparr>OrderBy = [], Limit = 10, Offset = - 20\<rparr> < 0" by simp
    have upd: "\<lparr>OrderBy = [], Limit = 10, Offset = - 20\<rparr>\<lparr>Offset := 0\<rparr>
        = \<lparr>OrderBy = [], Limit = 10, Offset = 0\<rparr>" by simp
    note L = pagination_exact_in_range [where r = dataset_handler and w = ?w and E = mem_env
        and lp = "\<lparr>OrderBy = [], Limit = 10, Offset = - 20\<rparr>" and res = "[]",
        THEN conjunct2, THEN conjunct2, THEN conjunct2, THEN conjunct2, THEN mp,
        OF conjI [OF h(1) conjI [OF h(2) neg]]]
    from L show ?thesis unfolding upd .
  qed
  from a b c show ?thesis by blast
qed

text \<open>
  The claim as stated fails in two places. For every \<open>page \<ge> 1\<close> and \<open>pageSize \<ge> 1\<close> it
  fails where the multiplication overflows: page \<open>2^62 + 1\<close> with page size 4 gives
  offset 0 and page number 1. And \<open>Page()\<close> does not coerce a negative \<open>Offset\<close> to zero:
  with \<open>Limit = 10\<close> and \<open>Offset = -20\<close> the page number is \<open>-1\<close>, where offset zero
  would give 1.
\<close>

theorem pagination_overflow_counterexample:
  "is_int64 4611686018427387905 \<and> is_int64 4
   \<and> Offset (NewListParams [] 4611686018427387905 4) = 0
   \<and> (4611686018427387905 - 1) * 4 \<noteq> (0::int)
   \<and> Number (ListParams_Page (NewListParams [] 4611686018427387905 4)) = 1
   \<and> Number (ListParams_Page \<lparr>OrderBy = [], Limit = 10, Offset = - 20\<rparr>) = - 1
   \<and> Number (ListParams_Page \<lparr>OrderBy = [], Limit = 10, Offset = 0\<rparr>) = 1"
  by (simp add: is_int64_def NewListParams_def ListParams_Page_def NewPage_def Let_def
      go_mul_def go_sub_def go_add_def go_div_def wrap64_def signed_divide_int_def)

section \<open>Renaming\<close>

text \<open>
  Claim C6. \<open>Rename\<close>, run locally, fails when the current name is empty, when the new
  name is invalid, when the new name already has a binding, and when the current name
  cannot be resolved; in each of these cases the handler and its repository come back
  as they were (the source binding with them) and \<open>*res\<close> is not written. When it
  succeeds, the current name resolved to a path, the current name is no longer bound,
  the new name is bound to that path, and the reference returned is the dataset loaded
  at that path under the new name.
\<close>

theorem Rename_contract:
  assumes "cli r = None" and "repo r = Some w"
  shows "(Current p = [] \<longrightarrow>
            (\<exists>e. DatasetRequests_Rename E r p res = Local (Some e, res, r)))
       \<and> (ValidName E (New p) \<noteq> None \<longrightarrow>
            (\<exists>e. DatasetRequests_Rename E r p res = Local (Some e, res, r)))
       \<and> (GetPath (names w) (New p) \<noteq> Inl ErrNotFound \<longrightarrow>
            (\<exists>e. DatasetRequests_Rename E r p res = Local (Some e, res, r)))
       \<and> ((\<forall>path. GetPath (names w) (Current p) \<noteq> Inr path) \<longrightarrow>
            (\<exists>e. DatasetRequests_Rename E r p res = Local (Some e, res, r)))
       \<and> (\<forall>ref r'. DatasetRequests_Rename E r p res = Local (None, ref, r') \<longrightarrow>
            (\<exists>path ds w'. GetPath (names w) (Current p) = Inr path
               \<and> repo r' = Some w'
               \<and> GetPath (names w') (Current p) = Inl ErrNotFound
               \<and> GetPath (names w') (New p) = Inr path
               \<and> fst (LoadDataset E (backing w) path) = Inr ds
               \<and> ref = \<lparr>Name = New p, Path = path, Dataset = Some ds\<rparr>))"
proof (intro conjI impI allI)
  assume "Current p = []"
  then show "\<exists>e. DatasetRequests_Rename E r p res = Local (Some e, res, r)"
    using assms by (simp add: DatasetRequests_Rename_def)
next
  assume "ValidName E (New p) \<noteq> None"
  then show "\<exists>e. DatasetRequests_Rename E r p res = Local (Some e, res, r)"
    using assms by (auto simp: DatasetRequests_Rename_def)
next
  assume "GetPath (names w) (New p) \<noteq> Inl ErrNotFound"
  then show "\<exists>e. DatasetRequests_Rename E r p res = Local (Some e, res, r)"
    using assms by (auto simp: DatasetRequests_Rename_def split: option.splits)
next
  assume "\<forall>path. GetPath (names w) (Current p) \<noteq> Inr path"
  then show "\<exists>e. DatasetRequests_Rename E r p res = Local (Some e, res, r)"
    using assms by (auto simp: DatasetRequests_Rename_def split: option.splits sum.splits)
next
  fix ref r'
  assume ok: "DatasetRequests_Rename E r p res = Local (None, ref, r')"
  from ok assms obtain path ns1 ns2 ds s1 where
    cur: "GetPath (names w) (Current p) = Inr path"
    and new: "GetPath (names w) (New p) = Inl ErrNotFound"
    and del: "DeleteName (delete_absent_fails E) (names w) (Current p) = (None, ns1)"
    and put: "PutName ns1 (New p) path = (None, ns2)"
    and load: "LoadDataset E (backing w) path = (Inr ds, s1)"
    and ref: "ref = \<lparr>Name = New p, Path = path, Dataset = Some ds\<rparr>"
    and r': "r' = with_repo r ns2 s1"
    by (auto simp: DatasetRequests_Rename_def
        split: option.splits if_splits sum.splits prod.splits)
  from cur new have ne: "New p \<noteq> Current p" by auto
  from DeleteName_ok [OF del] have d1: "map_of ns1 (Current p) = None" by simp
  from PutName_ok [OF put] ne d1 have
    "map_of ns2 (New p) = Some path" and "map_of ns2 (Current p) = None" by auto
  then have "GetPath ns2 (Current p) = Inl ErrNotFound" and "GetPath ns2 (New p) = Inr path"
    by (simp_all add: GetPath_def)
  with cur load ref r'
  show "\<exists>path ds w'. GetPath (names w) (Current p) = Inr path
               \<and> repo r' = Some w'
               \<and> GetPath (names w') (Current p) = Inl ErrNotFound
               \<and> GetPath (names w') (New p) = Inr path
               \<and> fst (LoadDataset E (backing w) path) = Inr ds
               \<and> ref = \<lparr>Name = New p, Path = path, Dataset = Some ds\<rparr>"
    by (simp add: with_repo_def)
qed

theorem Rename_contract_witness:
  "(\<exists>e. DatasetRequests_Rename mem_env dataset_handler
           \<lparr>Current = [], New = ''films''\<rparr> empty_DatasetRef
         = Local (Some e, empty_DatasetRef, dataset_handler))
   \<and> (\<exists>e. DatasetRequests_Rename mem_env dataset_handler
           \<lparr>Current = ''movies'', New = ''hyphen-name''\<rparr> empty_DatasetRef
         = Local (Some e, empty_DatasetRef, dataset_handler))
   \<and> (\<exists>e. DatasetRequests_Rename mem_env dataset_handler
           \<lparr>Current = ''movies'', New = ''movies''\<rparr> empty_DatasetRef
         = Local (Some e, empty_DatasetRef, dataset_handler))
   \<and> (\<exists>e. DatasetRequests_Rename mem_env dataset_handler
           \<lparr>Current = ''cities'', New = ''films''\<rparr> empty_DatasetRef
         = Local (Some e, empty_DatasetRef, dataset_handler))
   \<and> DatasetRequests_Rename mem_env dataset_handler
           \<lparr>Current = ''movies'', New = ''films''\<rparr> empty_DatasetRef
         = Local (None, \<lparr>Name = ''films'', Path = ''/mem/r3'', Dataset = Some rev3\<rparr>,
                  \<lparr>repo = Some \<lparr>names = [(''films'', ''/mem/r3'')], backing = history_mem\<rparr>,
                   cli = None\<rparr>)
   \<and> GetPath [(''films'', ''/mem/r3'')] ''movies'' = Inl ErrNotFound
   \<and> GetPath [(''films'', ''/mem/r3'')] ''films'' = Inr ''/mem/r3''"
proof -
  let ?w = "\<lparr>names = [(''movies'', ''/mem/r3'')], backing = history_mem\<rparr>"
  have h: "cli dataset_handler = None" "repo dataset_handler = Some ?w"
    by (simp_all add: dataset_handler_def)
  note T = Rename_contract [OF h, where E = mem_env and res = empty_DatasetRef]
  have a: "\<exists>e. DatasetRequests_Rename mem_env dataset_handler
           \<lparr>Current = [], New = ''films''\<rparr> empty_DatasetRef
         = Local (Some e, empty_DatasetRef, dataset_handler)"
    by (rule T [THEN conjunct1, THEN mp]) simp
  have b: "\<exists>e. DatasetRequests_Rename mem_env dataset_handler
           \<lparr>Current = ''movies'', New = ''hyphen-name''\<rparr> empty_DatasetRef
         = Local (Some e, empty_DatasetRef, dataset_handler)"
    by (rule T [THEN conjunct2, THEN conjunct1, THEN mp])
      (simp add: mem_env_def ValidDatasetName_def is_letter_def is_digit_def)
  have c: "\<exists>e. DatasetRequests_Rename mem_env dataset_handler
           \<lparr>Current = ''movies'', New = ''movies''\<rparr> empty_DatasetRef
         = Local (Some e, empty_DatasetRef, dataset_handler)"
    by (rule T [THEN conjunct2, THEN conjunct2, THEN conjunct1, THEN mp])
      (simp add: GetPath_def)
  have d: "\<exists>e. DatasetRequests_Rename mem_env dataset_handler
           \<lparr>Current = ''cities'', New = ''films''\<rparr> empty_DatasetRef
         = Local (Some e, empty_DatasetRef, dataset_handler)"
    by (rule T [THEN conjunct2, THEN conjunct2, THEN conjunct2, THEN conjunct1, THEN mp])
      (simp add: GetPath_def)
  have e: "DatasetRequests_Rename mem_env dataset_handler
           \<lparr>Current = ''movies'', New = ''films''\<rparr> empty_DatasetRef
         = Local (None, \<lparr>Name = ''films'', Path = ''/mem/r3'', Dataset = Some rev3\<rparr>,
                  \<lparr>repo = Some \<lparr>names = [(''films'', ''/mem/r3'')], backing = history_mem\<rparr>,
                   cli = None\<rparr>)"
    by (simp add: DatasetRequests_Rename_def mem_simps GetPath_def DeleteName_def PutName_def
        ValidDatasetName_def is_letter_def is_digit_def ErrNotFound_def with_repo_def)
  have f: "GetPath [(''films'', ''/mem/r3'')] ''movies'' = Inl ErrNotFound
         \<and> GetPath [(''films'', ''/mem/r3'')] ''films'' = Inr ''/mem/r3''"
    using T [where p = "\<lparr>Current = ''movies'', New = ''films''\<rparr>", THEN conjunct2,
        THEN conjunct2, THEN conjunct2, THEN conjunct2, THEN spec, THEN spec, THEN mp, OF e]
    by (simp add: GetPath_def)
  from a b c d e f show ?thesis by blast
qed

section \<open>Creating a dataset\<close>

text \<open>
  The last four steps of \<open>InitDataset\<close>: when they fail, the naming store is the one
  they started from, except when the binding was made and reading the record back
  failed; when they succeed, the binding of the name is the one appended.
\<close>

lemma persist_failure:
  assumes "InitDataset_persist E r p res ns s name ds = (Some e, res', r')"
  shows "res' = res \<and>
   (\<exists>w'. repo r' = Some w' \<and>
      (names w' = ns \<or> (\<exists>dskey s2 gerr. GetDataset E s2 dskey = (Inl gerr, backing w')
           \<and> e = ''error reading dataset: '' @ gerr \<and> names w' = ns @ [(name, dskey)])))"
proof -
  obtain x1 s1 where sv: "SaveDataset E s ds True = (x1, s1)" by (cases "SaveDataset E s ds True")
  show ?thesis
  proof (cases x1)
    case (Inl err)
    with assms sv show ?thesis by (auto simp: InitDataset_persist_def with_repo_def)
  next
    case (Inr dskey)
    obtain x2 s2 where pd: "PutDataset E s1 dskey ds = (x2, s2)"
      by (cases "PutDataset E s1 dskey ds")
    show ?thesis
    proof (cases x2)
      case (Some err)
      with assms sv Inr pd show ?thesis by (auto simp: InitDataset_persist_def with_repo_def)
    next
      case None
      obtain x3 ns1 where pn: "PutName ns name dskey = (x3, ns1)"
        by (cases "PutName ns name dskey")
      show ?thesis
      proof (cases x3)
        case (Some err)
        with pn have "ns1 = ns" by (auto dest: PutName_err)
        with assms sv Inr pd None pn Some show ?thesis
          by (auto simp: InitDataset_persist_def with_repo_def)
      next
        case n3: None
        with pn have ns1: "ns1 = ns @ [(name, dskey)]" by (auto dest: PutName_ok)
        obtain x4 s3 where gd: "GetDataset E s2 dskey = (x4, s3)"
          by (cases "GetDataset E s2 dskey")
        show ?thesis
        proof (cases x4)
          case (Inl gerr)
          with assms sv Inr pd None pn n3 gd have
            "res' = res" "r' = with_repo r ns1 s3" "e = ''error reading dataset: '' @ gerr"
            by (simp_all add: InitDataset_persist_def)
          with ns1 gd Inl show ?thesis by (auto simp: with_repo_def)
        next
          case (Inr ds1)
          with assms sv \<open>x1 = Inr dskey\<close> pd None pn n3 gd show ?thesis
            by (simp add: InitDataset_persist_def)
        qed
      qed
    qed
  qed
qed

lemma persist_success:
  "InitDataset_persist E r p res ns s name ds = (None, ref, r') \<Longrightarrow>
   \<exists>dskey ds1 s'. ref = \<lparr>Name = InitName p, Path = dskey, Dataset = Some ds1\<rparr>
      \<and> r' = with_repo r (ns @ [(name, dskey)]) s'
      \<and> map_of ns name = None \<and> ValidDatasetName name"
  by (auto simp: InitDataset_persist_def dest: PutName_ok
      split: prod.splits sum.splits option.splits)

lemma with_backing_repo: "repo (with_backing r w s) = Some (w\<lparr>backing := s\<rparr>)"
  by (simp add: with_backing_def)

lemma with_backing_names: "with_backing r w s = with_repo r (names w) s"
  by (simp add: with_backing_def with_repo_def)

lemma InitDataset_local:
  assumes "cli r = None" and "repo r = Some w"
  shows "DatasetRequests_InitDataset E r p res =
     (case InitDataset_record E p w of
        (Inl err, s) \<Rightarrow> Local (Some err, res, with_repo r (names w) s)
      | (Inr (name, ds), s) \<Rightarrow> Local (InitDataset_persist E r p res (names w) s name ds))"
  using assms
  by (simp add: DatasetRequests_InitDataset_def with_backing_names split: prod.splits sum.splits)

lemma GetPath_appended:
  "map_of ns n = None \<Longrightarrow> GetPath (ns @ [(n, k)]) n = Inr k"
  by (simp add: GetPath_def map_add_def)

text \<open>
  Claim C4, as the code has it. \<open>InitDataset\<close> run locally, step by step: when a step
  before the save fails, when the save fails, when putting the record in the repository
  fails, and when binding the name fails, the call returns that step's error, \<open>*res\<close> is
  not written and the naming store is the one before the call. When the name has been
  bound and reading the record back fails, the call returns
  \<open>error reading dataset: ...\<close>, \<open>*res\<close> is not written, and the naming store is the one
  before the call with the new binding appended: the name, unbound before, resolves to
  the new path. No error return leaves any other naming store.
\<close>

theorem InitDataset_failure_keeps_names:
  assumes "cli r = None" and "repo r = Some w"
  shows "(InitDataset_record E p w = (Inl err, s) \<longrightarrow>
            DatasetRequests_InitDataset E r p res
              = Local (Some err, res, with_repo r (names w) s))
       \<and> (InitDataset_record E p w = (Inr (name, ds), s)
          \<and> SaveDataset E s ds True = (Inl err, s1) \<longrightarrow>
            DatasetRequests_InitDataset E r p res
              = Local (Some (''error saving dataset: '' @ err), res, with_repo r (names w) s1))
       \<and> (InitDataset_record E p w = (Inr (name, ds), s)
          \<and> SaveDataset E s ds True = (Inr dskey, s1)
          \<and> PutDataset E s1 dskey ds = (Some err, s2) \<longrightarrow>
            DatasetRequests_InitDataset E r p res
              = Local (Some (''error putting dataset in repo: '' @ err), res,
                       with_repo r (names w) s2))
       \<and> (InitDataset_record E p w = (Inr (name, ds), s)
          \<and> SaveDataset E s ds True = (Inr dskey, s1)
          \<and> PutDataset E s1 dskey ds = (None, s2)
          \<and> PutName (names w) name dskey = (Some err, ns1) \<longrightarrow>
            DatasetRequests_InitDataset E r p res
              = Local (Some (''error adding dataset name to repo: '' @ err), res,
                       with_repo r (names w) s2))
       \<and> (InitDataset_record E p w = (Inr (name, ds), s)
          \<and> SaveDataset E s ds True = (Inr dskey, s1)
          \<and> PutDataset E s1 dskey ds = (None, s2)
          \<and> PutName (names w) name dskey = (None, ns1)
          \<and> GetDataset E s2 dskey = (Inl err, s3) \<longrightarrow>
            DatasetRequests_InitDataset E r p res
              = Local (Some (''error reading dataset: '' @ err), res,
                       with_repo r (names w @ [(name, dskey)]) s3)
            \<and> GetPath (names w) name = Inl ErrNotFound
            \<and> GetPath (names w @ [(name, dskey)]) name = Inr dskey)
       \<and> (\<forall>e res' r'. DatasetRequests_InitDataset E r p res = Local (Some e, res', r') \<longrightarrow>
            res' = res \<and>
            (\<exists>w'. repo r' = Some w' \<and>
               (names w' = names w
                \<or> (\<exists>dskey s2 gerr name. GetDataset E s2 dskey = (Inl gerr, backing w')
                      \<and> e = ''error reading dataset: '' @ gerr
                      \<and> names w' = names w @ [(name, dskey)]))))"
proof (intro conjI impI allI)
  assume "InitDataset_record E p w = (Inl err, s)"
  then show "DatasetRequests_InitDataset E r p res
      = Local (Some err, res, with_repo r (names w) s)"
    by (simp add: InitDataset_local [OF assms])
next
  assume "InitDataset_record E p w = (Inr (name, ds), s)
          \<and> SaveDataset E s ds True = (Inl err, s1)"
  then show "DatasetRequests_InitDataset E r p res
      = Local (Some (''error saving dataset: '' @ err), res, with_repo r (names w) s1)"
    by (simp add: InitDataset_local [OF assms] InitDataset_persist_def)
next
  assume "InitDataset_record E p w = (Inr (name, ds), s)
          \<and> SaveDataset E s ds True = (Inr dskey, s1)
          \<and> PutDataset E s1 dskey ds = (Some err, s2)"
  then show "DatasetRequests_InitDataset E r p res
      = Local (Some (''error putting dataset in repo: '' @ err), res, with_repo r (names w) s2)"
    by (simp add: InitDataset_local [OF assms] InitDataset_persist_def)
next
  assume a: "InitDataset_record E p w = (Inr (name, ds), s)
          \<and> SaveDataset E s ds True = (Inr dskey, s1)
          \<and> PutDataset E s1 dskey ds = (None, s2)
          \<and> PutName (names w) name dskey = (Some err, ns1)"
  then have "ns1 = names w" by (auto dest: PutName_err)
  with a show "DatasetRequests_InitDataset E r p res
      = Local (Some (''error adding dataset name to repo: '' @ err), res,
               with_repo r (names w) s2)"
    by (simp add: InitDataset_local [OF assms] InitDataset_persist_def)
next
  assume a: "InitDataset_record E p w = (Inr (name, ds), s)
          \<and> SaveDataset E s ds True = (Inr dskey, s1)
          \<and> PutDataset E s1 dskey ds = (None, s2)
          \<and> PutName (names w) name dskey = (None, ns1)
          \<and> GetDataset E s2 dskey = (Inl err, s3)"
  then have put: "PutName (names w) name dskey = (None, ns1)" by simp
  from PutName_ok [OF put] have ns1: "ns1 = names w @ [(name, dskey)]"
    and free: "map_of (names w) name = None" by simp_all
  from a ns1 show "DatasetRequests_InitDataset E r p res
      = Local (Some (''error reading dataset: '' @ err), res,
               with_repo r (names w @ [(name, dskey)]) s3)"
    by (simp add: InitDataset_local [OF assms] InitDataset_persist_def)
  from free show "GetPath (names w) name = Inl ErrNotFound" by (simp add: GetPath_def)
  from free show "GetPath (names w @ [(name, dskey)]) name = Inr dskey"
    by (rule GetPath_appended)
next
  fix e res' r'
  assume c: "DatasetRequests_InitDataset E r p res = Local (Some e, res', r')"
  from assms c show "res' = res"
    by (auto simp: DatasetRequests_InitDataset_def
        split: prod.splits sum.splits dest!: persist_failure)
  from assms c show "\<exists>w'. repo r' = Some w' \<and>
               (names w' = names w
                \<or> (\<exists>dskey s2 gerr name. GetDataset E s2 dskey = (Inl gerr, backing w')
                      \<and> e = ''error reading dataset: '' @ gerr
                      \<and> names w' = names w @ [(name, dskey)]))"
    by (auto simp: DatasetRequests_InitDataset_def with_backing_repo
        split: prod.splits sum.splits dest!: persist_failure)
qed


theorem InitDataset_failure_keeps_names_witness:
  "returned_error (DatasetRequests_InitDataset mem_env dataset_handler no_params
       empty_DatasetRef) = Some ''either a file or a url is required to create a dataset''
   \<and> names_after (DatasetRequests_InitDataset mem_env dataset_handler no_params
       empty_DatasetRef) = [(''movies'', ''/mem/r3'')]
   \<and> returned_error (DatasetRequests_InitDataset unsavable_env dataset_handler cities_params
       empty_DatasetRef) = Some ''error saving dataset: disk full''
   \<and> names_after (DatasetRequests_InitDataset unsavable_env dataset_handler cities_params
       empty_DatasetRef) = [(''movies'', ''/mem/r3'')]
   \<and> returned_error (DatasetRequests_InitDataset unputtable_env dataset_handler cities_params
       empty_DatasetRef) = Some ''error putting dataset in repo: read-only repository''
   \<and> names_after (DatasetRequests_InitDataset unputtable_env dataset_handler cities_params
       empty_DatasetRef) = [(''movies'', ''/mem/r3'')]
   \<and> returned_error (DatasetRequests_InitDataset mem_env dataset_handler taken_params
       empty_DatasetRef)
     = Some ''error adding dataset name to repo: repo: name already in use''
   \<and> returned_ref (DatasetRequests_InitDataset mem_env dataset_handler taken_params
       empty_DatasetRef) = Some empty_DatasetRef
   \<and> names_after (DatasetRequests_InitDataset mem_env dataset_handler taken_params
       empty_DatasetRef) = [(''movies'', ''/mem/r3'')]
   \<and> returned_error (DatasetRequests_InitDataset unreadable_env dataset_handler cities_params
       empty_DatasetRef) = Some ''error reading dataset: datastore: key not found''
   \<and> returned_ref (DatasetRequests_InitDataset unreadable_env dataset_handler cities_params
       empty_DatasetRef) = Some empty_DatasetRef
   \<and> names_after (DatasetRequests_InitDataset unreadable_env dataset_handler cities_params
       empty_DatasetRef)
     = [(''movies'', ''/mem/r3''), (''cities'', ''/mem/cities/iiiii/dataset.json'')]"
proof -
  let ?w = "\<lparr>names = [(''movies'', ''/mem/r3'')], backing = history_mem\<rparr>"
  let ?k = "''/mem/cities/iiiii/dataset.json''"
  let ?km = "''/mem/movies/iiiii/dataset.json''"
  let ?dm = "cities_ds\<lparr>Title := ''movies''\<rparr>"
  have h: "cli dataset_handler = None" "repo dataset_handler = Some ?w"
    by (simp_all add: dataset_handler_def)
  note T = InitDataset_failure_keeps_names [OF h, where res = empty_DatasetRef]
  have ra: "InitDataset_record mem_env no_params ?w
      = (Inl ''either a file or a url is required to create a dataset'', history_mem)"
    by code_simp
  have rb: "InitDataset_record unsavable_env cities_params ?w
      = (Inr (''cities'', cities_ds), stamped_mem)"
    by code_simp
  have sb: "SaveDataset unsavable_env stamped_mem cities_ds True = (Inl ''disk full'', stamped_mem)"
    by code_simp
  have rc: "InitDataset_record unputtable_env cities_params ?w
      = (Inr (''cities'', cities_ds), stamped_mem)"
    by code_simp
  have sc: "SaveDataset unputtable_env stamped_mem cities_ds True = (Inr ?k, cities_mem)"
    by code_simp
  have pc: "PutDataset unputtable_env cities_mem ?k cities_ds
      = (Some ''read-only repository'', cities_mem)"
    by code_simp
  have rd: "InitDataset_record mem_env taken_params ?w = (Inr (''movies'', ?dm), stamped_mem)"
    by code_simp
  have sd: "SaveDataset mem_env stamped_mem ?dm True
      = (Inr ?km, stamped_mem\<lparr>saved := (?km, ?dm) # saved stamped_mem\<rparr>)"
    by code_simp
  have pd: "PutDataset mem_env (stamped_mem\<lparr>saved := (?km, ?dm) # saved stamped_mem\<rparr>) ?km ?dm
      = (None, stamped_mem\<lparr>saved := (?km, ?dm) # saved stamped_mem\<rparr>)"
    by code_simp
  have nd: "PutName (names ?w) ''movies'' ?km = (Some ''repo: name already in use'', names ?w)"
    by code_simp
  have re: "InitDataset_record unreadable_env cities_params ?w
      = (Inr (''cities'', cities_ds), stamped_mem)"
    by code_simp
  have se: "SaveDataset unreadable_env stamped_mem cities_ds True = (Inr ?k, cities_mem)"
    by code_simp
  have pe: "PutDataset unreadable_env cities_mem ?k cities_ds = (None, cities_mem)"
    by code_simp
  have ne: "PutName (names ?w) ''cities'' ?k = (None, names ?w @ [(''cities'', ?k)])"
    by code_simp
  have ge: "GetDataset unreadable_env cities_mem ?k = (Inl ''datastore: key not found'', cities_mem)"
    by code_simp
  note A = T [THEN conjunct1, THEN mp, OF ra]
  note B = T [THEN conjunct2, THEN conjunct1, THEN mp, OF conjI [OF rb sb]]
  note C = T [THEN conjunct2, THEN conjunct2, THEN conjunct1, THEN mp, OF conjI [OF rc conjI [OF sc pc]]]
  note D = T [THEN conjunct2, THEN conjunct2, THEN conjunct2, THEN conjunct1, THEN mp, OF conjI [OF rd conjI [OF sd conjI [OF pd nd]]]]
  note E = T [THEN conjunct2, THEN conjunct2, THEN conjunct2, THEN conjunct2, THEN conjunct1, THEN mp, OF conjI [OF re conjI [OF se conjI [OF pe conjI [OF ne ge]]]],
      THEN conjunct1]
  have a: "returned_error (DatasetRequests_InitDataset mem_env dataset_handler no_params
       empty_DatasetRef) = Some ''either a file or a url is required to create a dataset''
   \<and> names_after (DatasetRequests_InitDataset mem_env dataset_handler no_params
       empty_DatasetRef) = [(''movies'', ''/mem/r3'')]"
    by (simp add: A returned_error_def names_after_def with_repo_def)
  have b: "returned_error (DatasetRequests_InitDataset unsavable_env dataset_handler cities_params
       empty_DatasetRef) = Some ''error saving dataset: disk full''
   \<and> names_after (DatasetRequests_InitDataset unsavable_env dataset_handler cities_params
       empty_DatasetRef) = [(''movies'', ''/mem/r3'')]"
    by (simp add: B returned_error_def names_after_def with_repo_def)
  have c: "returned_error (DatasetRequests_InitDataset unputtable_env dataset_handler cities_params
       empty_DatasetRef) = Some ''error putting dataset in repo: read-only repository''
   \<and> names_after (DatasetRequests_InitDataset unputtable_env dataset_handler cities_params
       empty_DatasetRef) = [(''movies'', ''/mem/r3'')]"
    by (simp add: C returned_error_def names_after_def with_repo_def)
  have d: "returned_error (DatasetRequests_InitDataset mem_env dataset_handler taken_params
       empty_DatasetRef)
     = Some ''error adding dataset name to repo: repo: name already in use''
   \<and> returned_ref (DatasetRequests_InitDataset mem_env dataset_handler taken_params
       empty_DatasetRef) = Some empty_DatasetRef
   \<and> names_after (DatasetRequests_InitDataset mem_env dataset_handler taken_params
       empty_DatasetRef) = [(''movies'', ''/mem/r3'')]"
    by (simp add: D returned_error_def returned_ref_def names_after_def with_repo_def)
  have e: "returned_error (DatasetRequests_InitDataset unreadable_env dataset_handler cities_params
       empty_DatasetRef) = Some ''error reading dataset: datastore: key not found''
   \<and> returned_ref (DatasetRequests_InitDataset unreadable_env dataset_handler cities_params
       empty_DatasetRef) = Some empty_DatasetRef
   \<and> names_after (DatasetRequests_InitDataset unreadable_env dataset_handler cities_params
       empty_DatasetRef)
     = [(''movies'', ''/mem/r3''), (''cities'', ''/mem/cities/iiiii/dataset.json'')]"
    by (simp add: E returned_error_def returned_ref_def names_after_def with_repo_def)
  from a b c d e show ?thesis by blast
qed

text \<open>
  The exception happens: on a dataset store that cannot read back what was put, the call
  fails and the name \<open>cities\<close>, unbound before, is bound to the new path.
\<close>

theorem InitDataset_failed_readback_keeps_binding:
  "map_option names (repo dataset_handler) = Some [(''movies'', ''/mem/r3'')]
   \<and> returned_error (DatasetRequests_InitDataset unreadable_env dataset_handler cities_params
         empty_DatasetRef) = Some ''error reading dataset: datastore: key not found''
   \<and> names_after (DatasetRequests_InitDataset unreadable_env dataset_handler cities_params
         empty_DatasetRef)
       = [(''movies'', ''/mem/r3''), (''cities'', ''/mem/cities/iiiii/dataset.json'')]
   \<and> GetPath [(''movies'', ''/mem/r3'')] ''cities'' = Inl ErrNotFound
   \<and> GetPath (names_after (DatasetRequests_InitDataset unreadable_env dataset_handler
         cities_params empty_DatasetRef)) ''cities'' = Inr ''/mem/cities/iiiii/dataset.json''"
  by code_simp

section \<open>Lemmas about the steps of InitDataset\<close>

lemma InitDataset_record_source:
  "InitDataset_record E p w = (Inr (name, ds), s) \<Longrightarrow>
   \<exists>filename rdr s1. InitDataset_source E p (backing w) = (Inr (filename, rdr), s1)
      \<and> name = InitDataset_name E p filename"
  by (auto simp: InitDataset_record_def Let_def
      split: prod.splits sum.splits option.splits if_splits)

lemma InitDataset_success:
  assumes "DatasetRequests_InitDataset E r p res = Local (None, ref, r')"
  shows "\<exists>w name ds s dskey ds1 s'.
           repo r = Some w
         \<and> InitDataset_record E p w = (Inr (name, ds), s)
         \<and> ref = \<lparr>Name = InitName p, Path = dskey, Dataset = Some ds1\<rparr>
         \<and> r' = with_repo r (names w @ [(name, dskey)]) s'
         \<and> map_of (names w) name = None
         \<and> ValidDatasetName name"
  using assms
  by (auto simp: DatasetRequests_InitDataset_def
      split: prod.splits sum.splits option.splits dest!: persist_success)

lemma InitDataset_source_filename:
  "InitDataset_source E p s = (Inr (filename, rdr), s1) \<Longrightarrow>
   filename = (if URL p \<noteq> [] then filepath_Base E (URL p) else DataFilename p)"
  by (auto simp: InitDataset_source_def split: if_splits prod.splits sum.splits option.splits)

lemma ValidDatasetName_nonempty: "ValidDatasetName n \<Longrightarrow> n \<noteq> []"
  by (auto simp: ValidDatasetName_def)

lemma InitDataset_succeeds:
  assumes "cli r = None" and "repo r = Some w"
    and "InitDataset_record E p w = (Inr (name, ds), s)"
    and "SaveDataset E s ds True = (Inr dskey, s1)"
    and "PutDataset E s1 dskey ds = (None, s2)"
    and "PutName (names w) name dskey = (None, ns1)"
    and "GetDataset E s2 dskey = (Inr ds1, s3)"
  shows "DatasetRequests_InitDataset E r p res
     = Local (None, \<lparr>Name = InitName p, Path = dskey, Dataset = Some ds1\<rparr>,
              with_repo r (names w @ [(name, dskey)]) s3)"
proof -
  from PutName_ok [OF assms(6)] have "ns1 = names w @ [(name, dskey)]" by simp
  with assms show ?thesis
    by (simp add: DatasetRequests_InitDataset_def InitDataset_persist_def)
qed




section \<open>The name InitDataset returns\<close>

text \<open>
  Claim C10. When the caller gives no name and \<open>InitDataset\<close> succeeds, the reference
  returned has the caller's empty name, while the name bound in the naming store is the
  one made from the file name (\<open>detect.Camelize\<close> of the base of the URL, or of the data
  file name): it is not empty, it was unbound before the call, and after the call it
  resolves to the path returned; the naming store is the old one with that one binding
  appended. And the call does succeed, with the empty name in the reference, whenever
  the record is assembled and the save, the put, the binding and the read-back succeed.
\<close>

theorem InitDataset_returns_callers_empty_name:
  assumes "InitName p = []"
  shows "(\<forall>ref r'. DatasetRequests_InitDataset E r p res = Local (None, ref, r') \<longrightarrow>
            Name ref = []
            \<and> (\<exists>w w' filename. repo r = Some w \<and> repo r' = Some w'
                 \<and> filename = (if URL p \<noteq> [] then filepath_Base E (URL p) else DataFilename p)
                 \<and> Camelize E filename \<noteq> []
                 \<and> GetPath (names w) (Camelize E filename) = Inl ErrNotFound
                 \<and> GetPath (names w') (Camelize E filename) = Inr (Path ref)
                 \<and> names w' = names w @ [(Camelize E filename, Path ref)]))
       \<and> (cli r = None \<and> repo r = Some w
          \<and> InitDataset_record E p w = (Inr (name, ds), s)
          \<and> SaveDataset E s ds True = (Inr dskey, s1)
          \<and> PutDataset E s1 dskey ds = (None, s2)
          \<and> PutName (names w) name dskey = (None, ns1)
          \<and> GetDataset E s2 dskey = (Inr ds1, s3) \<longrightarrow>
            DatasetRequests_InitDataset E r p res
              = Local (None, \<lparr>Name = [], Path = dskey, Dataset = Some ds1\<rparr>,
                       with_repo r (names w @ [(name, dskey)]) s3)
            \<and> name \<noteq> [])"
proof (intro conjI impI allI)
  fix ref r'
  assume ok: "DatasetRequests_InitDataset E r p res = Local (None, ref, r')"
  from InitDataset_success [OF ok] obtain w name ds s dskey ds1 s' where
    w: "repo r = Some w"
    and rec: "InitDataset_record E p w = (Inr (name, ds), s)"
    and ref: "ref = \<lparr>Name = InitName p, Path = dskey, Dataset = Some ds1\<rparr>"
    and r': "r' = with_repo r (names w @ [(name, dskey)]) s'"
    and free: "map_of (names w) name = None"
    and valid: "ValidDatasetName name"
    by blast
  from InitDataset_record_source [OF rec] obtain filename rdr s1 where
    src: "InitDataset_source E p (backing w) = (Inr (filename, rdr), s1)"
    and name: "name = InitDataset_name E p filename" by blast
  from valid have ne: "name \<noteq> []" by (rule ValidDatasetName_nonempty)
  with assms name have nm: "name = Camelize E filename"
    by (auto simp: InitDataset_name_def split: if_splits)
  from ref assms show "Name ref = []" by simp
  from free have "GetPath (names w) name = Inl ErrNotFound" by (simp add: GetPath_def)
  with InitDataset_source_filename [OF src] w ref r' free ne nm
  show "\<exists>w w' filename. repo r = Some w \<and> repo r' = Some w'
                 \<and> filename = (if URL p \<noteq> [] then filepath_Base E (URL p) else DataFilename p)
                 \<and> Camelize E filename \<noteq> []
                 \<and> GetPath (names w) (Camelize E filename) = Inl ErrNotFound
                 \<and> GetPath (names w') (Camelize E filename) = Inr (Path ref)
                 \<and> names w' = names w @ [(Camelize E filename, Path ref)]"
    by (simp add: with_repo_def GetPath_appended)
next
  assume a: "cli r = None \<and> repo r = Some w
          \<and> InitDataset_record E p w = (Inr (name, ds), s)
          \<and> SaveDataset E s ds True = (Inr dskey, s1)
          \<and> PutDataset E s1 dskey ds = (None, s2)
          \<and> PutName (names w) name dskey = (None, ns1)
          \<and> GetDataset E s2 dskey = (Inr ds1, s3)"
  then have "DatasetRequests_InitDataset E r p res
     = Local (None, \<lparr>Name = InitName p, Path = dskey, Dataset = Some ds1\<rparr>,
              with_repo r (names w @ [(name, dskey)]) s3)"
    by (intro InitDataset_succeeds [where ?ns1.0 = ns1 and ?s1.0 = s1 and ?s2.0 = s2 and s = s
          and ds = ds]) simp_all
  with assms show "DatasetRequests_InitDataset E r p res
              = Local (None, \<lparr>Name = [], Path = dskey, Dataset = Some ds1\<rparr>,
                       with_repo r (names w @ [(name, dskey)]) s3)" by simp
  from a have "PutName (names w) name dskey = (None, ns1)" by simp
  from PutName_ok [OF this] show "name \<noteq> []" by (auto dest: ValidDatasetName_nonempty)
qed

theorem InitDataset_returns_callers_empty_name_witness:
  "DatasetRequests_InitDataset mem_env dataset_handler cities_params empty_DatasetRef
     = Local (None,
         \<lparr>Name = [], Path = ''/mem/cities/iiiii/dataset.json'', Dataset = Some cities_ds\<rparr>,
         \<lparr>repo = Some \<lparr>names = [(''movies'', ''/mem/r3''),
                                  (''cities'', ''/mem/cities/iiiii/dataset.json'')],
                        backing = cities_mem\<rparr>,
          cli = None\<rparr>)
   \<and> Camelize mem_env ''cities.csv'' = ''cities''
   \<and> GetPath [(''movies'', ''/mem/r3'')] ''cities'' = Inl ErrNotFound
   \<and> GetPath [(''movies'', ''/mem/r3''), (''cities'', ''/mem/cities/iiiii/dataset.json'')]
         ''cities'' = Inr ''/mem/cities/iiiii/dataset.json''"
proof -
  let ?w = "\<lparr>names = [(''movies'', ''/mem/r3'')], backing = history_mem\<rparr>"
  let ?k = "''/mem/cities/iiiii/dataset.json''"
  have n: "InitName cities_params = []" by (simp add: cities_params_def)
  have h: "cli dataset_handler = None" "repo dataset_handler = Some ?w"
    by (simp_all add: dataset_handler_def)
  have rc: "InitDataset_record mem_env cities_params ?w
      = (Inr (''cities'', cities_ds), stamped_mem)"
    by code_simp
  have sv: "SaveDataset mem_env stamped_mem cities_ds True = (Inr ?k, cities_mem)"
    by code_simp
  have pd: "PutDataset mem_env cities_mem ?k cities_ds = (None, cities_mem)"
    by code_simp
  have pn: "PutName (names ?w) ''cities'' ?k = (None, names ?w @ [(''cities'', ?k)])"
    by code_simp
  have gd: "GetDataset mem_env cities_mem ?k = (Inr cities_ds, cities_mem)"
    by code_simp
  have cam: "Camelize mem_env ''cities.csv'' = ''cities''" by (simp add: mem_env_def)
  note T = InitDataset_returns_callers_empty_name [OF n, where E = mem_env
      and r = dataset_handler and res = empty_DatasetRef]
  note F = T [THEN conjunct2, THEN mp,
      OF conjI [OF h(1) conjI [OF h(2) conjI [OF rc conjI [OF sv conjI [OF pd conjI [OF pn gd]]]]]],
      THEN conjunct1]
  have wr: "with_repo dataset_handler (names ?w @ [(''cities'', ?k)]) cities_mem
      = \<lparr>repo = Some \<lparr>names = [(''movies'', ''/mem/r3''), (''cities'', ?k)],
                        backing = cities_mem\<rparr>, cli = None\<rparr>"
    by (simp add: with_repo_def dataset_handler_def)
  from F have ok: "DatasetRequests_InitDataset mem_env dataset_handler cities_params
       empty_DatasetRef
     = Local (None, \<lparr>Name = [], Path = ?k, Dataset = Some cities_ds\<rparr>,
         \<lparr>repo = Some \<lparr>names = [(''movies'', ''/mem/r3''), (''cities'', ?k)],
                        backing = cities_mem\<rparr>, cli = None\<rparr>)"
    unfolding wr .
  from T [THEN conjunct1, THEN spec, THEN spec, THEN mp, OF ok] cam
  have "GetPath [(''movies'', ''/mem/r3'')] ''cities'' = Inl ErrNotFound
      \<and> GetPath [(''movies'', ''/mem/r3''), (''cities'', ?k)] ''cities'' = Inr ?k"
    by (simp add: dataset_handler_def cities_params_def)
  with ok cam show ?thesis by blast
qed

section \<open>The checks of InitDataset\<close>





section \<open>Updating a dataset\<close>

lemma Update_local:
  assumes "cli r = None" and "repo r = Some w" and "Changes p = Some changes"
    and "Update_resolve E (names w) changes = Inr (name, prevpath)"
    and "GetDataset E (backing w) prevpath = (Inr prev, s1)"
    and "Update_data E p (Dataset_Assign E empty_Dataset [prev, changes]) s1 = (Inr ds1, s2)"
    and "validate_Dataset E (ds1\<lparr>Previous := Update_previous E prevpath\<rparr>) = None"
    and "Now E s2 = (t, s3)"
    and "SaveDataset E s3 (ds1\<lparr>Previous := Update_previous E prevpath, Timestamp := t\<rparr>) True
           = (Inr dspath, s4)"
    and "Update_rebind E (names w) name dspath = (None, ns1)"
  shows "DatasetRequests_Update E r p res
     = Local (None,
         \<lparr>Name = name, Path = dspath,
          Dataset = Some (ds1\<lparr>Previous := Update_previous E prevpath, Timestamp := t\<rparr>)\<rparr>,
         with_repo r ns1 s4)"
  using assms by (simp add: DatasetRequests_Update_def Let_def)

lemma Update_success:
  assumes "DatasetRequests_Update E r p res = Local (None, ref, r')"
  shows "\<exists>w changes name prevpath ds dspath ns1 s.
           repo r = Some w \<and> Changes p = Some changes
         \<and> Update_resolve E (names w) changes = Inr (name, prevpath)
         \<and> ref = \<lparr>Name = name, Path = dspath, Dataset = Some ds\<rparr>
         \<and> Previous ds = Update_previous E prevpath
         \<and> Update_rebind E (names w) name dspath = (None, ns1)
         \<and> r' = with_repo r ns1 s"
  using assms
  by (auto simp: DatasetRequests_Update_def Let_def
      split: option.splits sum.splits prod.splits)

lemma Update_rebind_ok:
  assumes "name \<noteq> []" and "Update_rebind E ns name dspath = (None, ns1)"
  shows "GetPath ns1 name = Inr dspath" and "\<And>m. m \<noteq> name \<Longrightarrow> GetPath ns1 m = GetPath ns m"
proof -
  from assms obtain ns0 where
    del: "DeleteName (delete_absent_fails E) ns name = (None, ns0)"
    and put: "PutName ns0 name dspath = (None, ns1)"
    by (auto simp: Update_rebind_def split: prod.splits option.splits)
  from PutName_ok [OF put] have "map_of ns1 name = Some dspath" by blast
  then show "GetPath ns1 name = Inr dspath" by (simp add: GetPath_def)
  fix m assume "m \<noteq> (name::string)"
  with PutName_ok [OF put] DeleteName_ok [OF del] have "map_of ns1 m = map_of ns m" by metis
  then show "GetPath ns1 m = GetPath ns m" by (simp add: GetPath_def)
qed

lemma Update_rebind_succeeds:
  assumes "ValidDatasetName name" and "GetPath ns name = Inr old"
  shows "\<exists>ns1. Update_rebind E ns name dspath = (None, ns1)"
proof -
  from assms(1) have ne: "name \<noteq> []" by (auto simp: ValidDatasetName_def)
  from assms(2) have "map_of ns name \<noteq> None" by (simp add: GetPath_Inr)
  then have del: "DeleteName (delete_absent_fails E) ns name
      = (None, filter (\<lambda>b. fst b \<noteq> name) ns)" by (simp add: DeleteName_def)
  have "PutName (filter (\<lambda>b. fst b \<noteq> name) ns) name dspath
      = (None, filter (\<lambda>b. fst b \<noteq> name) ns @ [(name, dspath)])"
    using assms(1) by (simp add: PutName_def map_of_filter_fst_same)
  with del ne show ?thesis by (simp add: Update_rebind_def)
qed

lemma GetName_bound:
  "fst (GetName ns k) \<noteq> [] \<Longrightarrow> (fst (GetName ns k), k) \<in> set ns"
proof -
  assume a: "fst (GetName ns k) \<noteq> []"
  then obtain b bs where f: "filter (\<lambda>b. snd b = k) ns = b # bs"
    by (cases "filter (\<lambda>b. snd b = k) ns") (auto simp: GetName_def)
  then have "b \<in> set (filter (\<lambda>b. snd b = k) ns)" by simp
  then have "b \<in> set ns" "snd b = k" by simp_all
  moreover from f have "fst (GetName ns k) = fst b" by (simp add: GetName_def)
  ultimately show ?thesis by (cases b) auto
qed

lemma GetName_resolves:
  assumes "distinct (map fst ns)" and "fst (GetName ns k) \<noteq> []"
  shows "GetPath ns (fst (GetName ns k)) = Inr k"
proof -
  from GetName_bound [OF assms(2)] have "(fst (GetName ns k), k) \<in> set ns" .
  with assms(1) have "map_of ns (fst (GetName ns k)) = Some k" by (rule map_of_is_SomeI)
  then show ?thesis by (simp add: GetPath_def)
qed

lemma HasSuffix_tail:
  assumes "HasSuffix s (c # suf)"
  shows "HasSuffix s suf"
proof -
  from assms have len: "Suc (length suf) \<le> length s"
    and d: "drop (length s - Suc (length suf)) s = c # suf"
    by (simp_all add: HasSuffix_def)
  from len have e: "length s - length suf = Suc (length s - Suc (length suf))" by simp
  have "drop (length s - length suf) s = tl (drop (length s - Suc (length suf)) s)"
    unfolding e by (simp add: drop_Suc drop_tl)
  with d have "drop (length s - length suf) s = suf" by simp
  with len show ?thesis by (simp add: HasSuffix_def)
qed

text \<open>
  Claim C2, as the code has it. \<open>Update\<close> run locally with a \<open>Changes\<close> record. The
  reference in \<open>Changes.Previous\<close> resolves through the naming store when
  \<open>dsfs.RefType\<close> calls it a name (looked up with its slashes trimmed), and directly as a
  path otherwise, the name then being the one the naming store has for that path (one
  that is bound to it and, names being distinct, resolves to it). When the reference
  resolves, the previous record is read, the data is put, the record is valid and is
  saved, and the name is rebound, the call succeeds: the reference returned has the
  name, the new path, and the new record, whose \<open>Previous\<close> is the prior path with a
  trailing \<open>/dataset.json\<close> (the package file name) taken off, and the prior path itself
  when it does not end in the package file name. The rebinding of a non-empty name
  succeeds when the name is valid and bound; after it the name resolves to the new path
  and every other name resolves as before; an empty name rebinds nothing. And every
  successful call is of this form.
\<close>

theorem Update_links_and_rebinds:
  assumes "cli r = None" and "repo r = Some w" and "Changes p = Some changes"
  shows "(RefType E (Previous changes) = (''name'', ref)
          \<and> GetPath (names w) (Trim_slash ref) = Inr prevpath \<longrightarrow>
            Update_resolve E (names w) changes = Inr (ref, prevpath))
       \<and> (RefType E (Previous changes) = (rt, ref) \<and> rt \<noteq> ''name'' \<longrightarrow>
            Update_resolve E (names w) changes
              = Inr (fst (GetName (names w) (NewKey E ref)), NewKey E ref))
       \<and> (fst (GetName (names w) k) \<noteq> [] \<longrightarrow>
            (fst (GetName (names w) k), k) \<in> set (names w)
            \<and> (distinct (map fst (names w)) \<longrightarrow>
                   GetPath (names w) (fst (GetName (names w) k)) = Inr k))
       \<and> (Update_resolve E (names w) changes = Inr (name, prevpath)
          \<and> GetDataset E (backing w) prevpath = (Inr prev, s1)
          \<and> Update_data E p (Dataset_Assign E empty_Dataset [prev, changes]) s1 = (Inr ds1, s2)
          \<and> validate_Dataset E (ds1\<lparr>Previous := Update_previous E prevpath\<rparr>) = None
          \<and> Now E s2 = (t, s3)
          \<and> SaveDataset E s3 (ds1\<lparr>Previous := Update_previous E prevpath, Timestamp := t\<rparr>)
                True = (Inr dspath, s4)
          \<and> Update_rebind E (names w) name dspath = (None, ns1) \<longrightarrow>
            DatasetRequests_Update E r p res
              = Local (None,
                  \<lparr>Name = name, Path = dspath,
                   Dataset = Some (ds1\<lparr>Previous := Update_previous E prevpath,
                                        Timestamp := t\<rparr>)\<rparr>,
                  with_repo r ns1 s4))
       \<and> (\<not> HasSuffix prevpath (PackageFileDataset E) \<longrightarrow>
            Update_previous E prevpath = prevpath)
       \<and> (HasSuffix prevpath (''/'' @ PackageFileDataset E) \<longrightarrow>
            Update_previous E prevpath
              = NewKey E (take (length prevpath - length (''/'' @ PackageFileDataset E)) prevpath))
       \<and> (name \<noteq> [] \<and> Update_rebind E ns name dspath = (None, ns1) \<longrightarrow>
            GetPath ns1 name = Inr dspath
            \<and> (\<forall>m. m \<noteq> name \<longrightarrow> GetPath ns1 m = GetPath ns m))
       \<and> Update_rebind E ns [] dspath = (None, ns)
       \<and> (ValidDatasetName name \<and> GetPath ns name = Inr old \<longrightarrow>
            (\<exists>ns2. Update_rebind E ns name dspath = (None, ns2)))
       \<and> (\<forall>ref' r'. DatasetRequests_Update E r p res = Local (None, ref', r') \<longrightarrow>
            (\<exists>name prevpath ds.
               Update_resolve E (names w) changes = Inr (name, prevpath)
               \<and> ref' = \<lparr>Name = name, Path = Path ref', Dataset = Some ds\<rparr>
               \<and> Previous ds = Update_previous E prevpath
               \<and> (name \<noteq> [] \<longrightarrow>
                    (\<exists>w'. repo r' = Some w' \<and> GetPath (names w') name = Inr (Path ref')))))"
proof (intro conjI impI allI)
  assume "RefType E (Previous changes) = (''name'', ref)
          \<and> GetPath (names w) (Trim_slash ref) = Inr prevpath"
  then show "Update_resolve E (names w) changes = Inr (ref, prevpath)"
    by (simp add: Update_resolve_def)
next
  assume "RefType E (Previous changes) = (rt, ref) \<and> rt \<noteq> ''name''"
  then show "Update_resolve E (names w) changes
              = Inr (fst (GetName (names w) (NewKey E ref)), NewKey E ref)"
    by (simp add: Update_resolve_def)
next
  assume n: "fst (GetName (names w) k) \<noteq> []"
  then show "(fst (GetName (names w) k), k) \<in> set (names w)" by (rule GetName_bound)
  assume "distinct (map fst (names w))"
  from this n show "GetPath (names w) (fst (GetName (names w) k)) = Inr k"
    by (rule GetName_resolves)
next
  assume a: "Update_resolve E (names w) changes = Inr (name, prevpath)
          \<and> GetDataset E (backing w) prevpath = (Inr prev, s1)
          \<and> Update_data E p (Dataset_Assign E empty_Dataset [prev, changes]) s1 = (Inr ds1, s2)
          \<and> validate_Dataset E (ds1\<lparr>Previous := Update_previous E prevpath\<rparr>) = None
          \<and> Now E s2 = (t, s3)
          \<and> SaveDataset E s3 (ds1\<lparr>Previous := Update_previous E prevpath, Timestamp := t\<rparr>)
                True = (Inr dspath, s4)
          \<and> Update_rebind E (names w) name dspath = (None, ns1)"
  show "DatasetRequests_Update E r p res
              = Local (None,
                  \<lparr>Name = name, Path = dspath,
                   Dataset = Some (ds1\<lparr>Previous := Update_previous E prevpath,
                                        Timestamp := t\<rparr>)\<rparr>,
                  with_repo r ns1 s4)"
    by (rule Update_local [OF assms a [THEN conjunct1] a [THEN conjunct2, THEN conjunct1] a [THEN conjunct2, THEN conjunct2, THEN conjunct1] a [THEN conjunct2, THEN conjunct2, THEN conjunct2, THEN conjunct1] a [THEN conjunct2, THEN conjunct2, THEN conjunct2, THEN conjunct2, THEN conjunct1] a [THEN conjunct2, THEN conjunct2, THEN conjunct2, THEN conjunct2, THEN conjunct2, THEN conjunct1] a [THEN conjunct2, THEN conjunct2, THEN conjunct2, THEN conjunct2, THEN conjunct2, THEN conjunct2]])
next
  assume "\<not> HasSuffix prevpath (PackageFileDataset E)"
  then show "Update_previous E prevpath = prevpath" by (simp add: Update_previous_def)
next
  assume h: "HasSuffix prevpath (''/'' @ PackageFileDataset E)"
  then have "HasSuffix prevpath (CHR ''/'' # PackageFileDataset E)" by simp
  then have "HasSuffix prevpath (PackageFileDataset E)" by (rule HasSuffix_tail)
  with h show "Update_previous E prevpath
      = NewKey E (take (length prevpath - length (''/'' @ PackageFileDataset E)) prevpath)"
    by (simp add: Update_previous_def TrimSuffix_def)
next
  assume a: "name \<noteq> [] \<and> Update_rebind E ns name dspath = (None, ns1)"
  from Update_rebind_ok(1) [OF a [THEN conjunct1] a [THEN conjunct2]]
  show "GetPath ns1 name = Inr dspath" .
  fix m assume "m \<noteq> name"
  with Update_rebind_ok(2) [OF a [THEN conjunct1] a [THEN conjunct2]]
  show "GetPath ns1 m = GetPath ns m" by simp
next
  show "Update_rebind E ns [] dspath = (None, ns)" by (simp add: Update_rebind_def)
next
  assume a: "ValidDatasetName name \<and> GetPath ns name = Inr old"
  from Update_rebind_succeeds [OF a [THEN conjunct1] a [THEN conjunct2]]
  show "\<exists>ns2. Update_rebind E ns name dspath = (None, ns2)" .
next
  fix ref' r'
  assume ok: "DatasetRequests_Update E r p res = Local (None, ref', r')"
  from Update_success [OF ok] assms(2,3) obtain name prevpath ds dspath ns1 s where
    rs: "Update_resolve E (names w) changes = Inr (name, prevpath)"
    and ref: "ref' = \<lparr>Name = name, Path = dspath, Dataset = Some ds\<rparr>"
    and prev: "Previous ds = Update_previous E prevpath"
    and rb: "Update_rebind E (names w) name dspath = (None, ns1)"
    and r': "r' = with_repo r ns1 s"
    by auto
  have "name \<noteq> [] \<longrightarrow> (\<exists>w'. repo r' = Some w' \<and> GetPath (names w') name = Inr (Path ref'))"
  proof
    assume ne: "name \<noteq> []"
    from Update_rebind_ok(1) [OF ne rb] r' ref
    show "\<exists>w'. repo r' = Some w' \<and> GetPath (names w') name = Inr (Path ref')"
      by (simp add: with_repo_def)
  qed
  with rs ref prev show "\<exists>name prevpath ds.
               Update_resolve E (names w) changes = Inr (name, prevpath)
               \<and> ref' = \<lparr>Name = name, Path = Path ref', Dataset = Some ds\<rparr>
               \<and> Previous ds = Update_previous E prevpath
               \<and> (name \<noteq> [] \<longrightarrow>
                    (\<exists>w'. repo r' = Some w' \<and> GetPath (names w') name = Inr (Path ref')))"
    by auto
qed


theorem Update_links_and_rebinds_witness:
  "DatasetRequests_Update mem_env cities_handler retitle_by_path empty_DatasetRef
     = Local (None,
         \<lparr>Name = ''cities'', Path = ''/mem/towns/iiiiii/dataset.json'', Dataset = Some towns_ds\<rparr>,
         \<lparr>repo = Some \<lparr>names = [(''movies'', ''/mem/r3''),
                                  (''cities'', ''/mem/towns/iiiiii/dataset.json'')],
                        backing = towns_mem\<rparr>,
          cli = None\<rparr>)
   \<and> Update_previous mem_env ''/mem/cities/iiiii/dataset.json'' = ''/mem/cities/iiiii''
   \<and> Update_previous mem_env ''/mem/r3'' = ''/mem/r3''
   \<and> GetPath [(''movies'', ''/mem/r3''), (''cities'', ''/mem/cities/iiiii/dataset.json'')]
         ''cities'' = Inr ''/mem/cities/iiiii/dataset.json''
   \<and> GetPath [(''movies'', ''/mem/r3''), (''cities'', ''/mem/towns/iiiiii/dataset.json'')]
         ''cities'' = Inr ''/mem/towns/iiiiii/dataset.json''
   \<and> Update_resolve mem_env
         [(''movies'', ''/mem/r3''), (''cities'', ''/mem/cities/iiiii/dataset.json'')]
         (empty_Dataset\<lparr>Title := ''towns'', Previous := ''cities''\<rparr>)
       = Inr (''cities'', ''/mem/cities/iiiii/dataset.json'')"
proof -
  let ?k = "''/mem/cities/iiiii/dataset.json''"
  let ?nk = "''/mem/towns/iiiiii/dataset.json''"
  let ?ns = "[(''movies'', ''/mem/r3''), (''cities'', ?k)]"
  let ?ns' = "[(''movies'', ''/mem/r3''), (''cities'', ?nk)]"
  let ?w = "\<lparr>names = ?ns, backing = cities_mem\<rparr>"
  let ?cp = "empty_Dataset\<lparr>Title := ''towns'', Previous := ?k\<rparr>"
  let ?cn = "empty_Dataset\<lparr>Title := ''towns'', Previous := ''cities''\<rparr>"
  let ?d1 = "cities_ds\<lparr>Title := ''towns'', Previous := ?k\<rparr>"
  have h: "cli cities_handler = None" "repo cities_handler = Some ?w"
    by (simp_all add: cities_handler_def)
  have hp: "Changes retitle_by_path = Some ?cp" by (simp add: retitle_by_path_def)
  have hn: "Changes retitle_by_name = Some ?cn" by (simp add: retitle_by_name_def)
  note T = Update_links_and_rebinds [OF h hp, where E = mem_env and res = empty_DatasetRef]
  note Tn = Update_links_and_rebinds [OF h hn, where E = mem_env and res = empty_DatasetRef]
  have rt: "RefType mem_env (Previous ?cp) = (''path'', ?k)" by code_simp
  have ne: "''path'' \<noteq> ''name''" by simp
  have nk: "NewKey mem_env ?k = ?k" by code_simp
  have gn: "fst (GetName (names ?w) ?k) = ''cities''" by code_simp
  from T [THEN conjunct2, THEN conjunct1, THEN mp, OF conjI [OF rt ne]]
  have rs: "Update_resolve mem_env (names ?w) ?cp = Inr (''cities'', ?k)"
    unfolding nk gn .
  have nb: "fst (GetName (names ?w) ?k) \<noteq> []" unfolding gn by simp
  have di: "distinct (map fst (names ?w))" by simp
  from T [THEN conjunct2, THEN conjunct2, THEN conjunct1, THEN mp, OF nb, THEN conjunct2, THEN mp, OF di]
  have old: "GetPath ?ns ''cities'' = Inr ?k" unfolding gn by simp
  have up: "Update_previous mem_env ?k = ''/mem/cities/iiiii''"
  proof -
    have s: "HasSuffix ?k (''/'' @ PackageFileDataset mem_env)" by code_simp
    have e: "NewKey mem_env (take (length ?k - length (''/'' @ PackageFileDataset mem_env)) ?k)
        = ''/mem/cities/iiiii''" by code_simp
    from T [where prevpath = ?k, THEN conjunct2, THEN conjunct2, THEN conjunct2, THEN conjunct2, THEN conjunct2, THEN conjunct1, THEN mp, OF s] show ?thesis unfolding e .
  qed
  have up3: "Update_previous mem_env ''/mem/r3'' = ''/mem/r3''"
  proof -
    have s: "\<not> HasSuffix ''/mem/r3'' (PackageFileDataset mem_env)" by code_simp
    from T [where prevpath = "''/mem/r3''", THEN conjunct2, THEN conjunct2, THEN conjunct2, THEN conjunct2, THEN conjunct1, THEN mp, OF s] show ?thesis .
  qed
  have gd: "GetDataset mem_env (backing ?w) ?k = (Inr cities_ds, cities_mem)" by code_simp
  have ud: "Update_data mem_env retitle_by_path
      (Dataset_Assign mem_env empty_Dataset [cities_ds, ?cp]) cities_mem = (Inr ?d1, cities_mem)"
    by code_simp
  have vd: "validate_Dataset mem_env (?d1\<lparr>Previous := Update_previous mem_env ?k\<rparr>) = None"
    by code_simp
  have nw: "Now mem_env cities_mem = (6, cities_mem\<lparr>clock := 7\<rparr>)" by code_simp
  have sv: "SaveDataset mem_env (cities_mem\<lparr>clock := 7\<rparr>)
      (?d1\<lparr>Previous := Update_previous mem_env ?k, Timestamp := 6\<rparr>) True
      = (Inr ?nk, towns_mem)" by code_simp
  have rb: "Update_rebind mem_env (names ?w) ''cities'' ?nk = (None, ?ns')" by code_simp
  have td: "?d1\<lparr>Previous := Update_previous mem_env ?k, Timestamp := 6\<rparr> = towns_ds"
    by code_simp
  have wr: "with_repo cities_handler ?ns' towns_mem
      = \<lparr>repo = Some \<lparr>names = ?ns', backing = towns_mem\<rparr>, cli = None\<rparr>"
    by (simp add: with_repo_def cities_handler_def)
  from T [THEN conjunct2, THEN conjunct2, THEN conjunct2, THEN conjunct1, THEN mp, OF conjI [OF rs conjI [OF gd conjI [OF ud conjI [OF vd conjI [OF nw conjI [OF sv rb]]]]]]]
  have ok: "DatasetRequests_Update mem_env cities_handler retitle_by_path empty_DatasetRef
     = Local (None, \<lparr>Name = ''cities'', Path = ?nk, Dataset = Some towns_ds\<rparr>,
         \<lparr>repo = Some \<lparr>names = ?ns', backing = towns_mem\<rparr>, cli = None\<rparr>)"
    unfolding td wr .
  have c: "''cities'' \<noteq> []" by simp
  from T [where name = "''cities''" and ns = "names ?w", THEN conjunct2, THEN conjunct2, THEN conjunct2, THEN conjunct2, THEN conjunct2, THEN conjunct2, THEN conjunct1, THEN mp, OF conjI [OF c rb],
      THEN conjunct1]
  have new: "GetPath ?ns' ''cities'' = Inr ?nk" .
  have rn: "RefType mem_env (Previous ?cn) = (''name'', ''cities'')" by code_simp
  have gp: "GetPath (names ?w) (Trim_slash ''cities'') = Inr ?k" by code_simp
  from Tn [THEN conjunct1, THEN mp, OF conjI [OF rn gp]]
  have byname: "Update_resolve mem_env ?ns ?cn = Inr (''cities'', ?k)" by simp
  from ok up up3 old new byname show ?thesis by blast
qed

text \<open>
  The claim as stated has \<open>Previous\<close> equal to the prior path, and the call succeed. A
  prior path that ends in the package file name, as the paths of saved datasets do, is
  recorded without it: the dataset bound to \<open>cities\<close> at
  \<open>/mem/cities/iiiii/dataset.json\<close> gets a successor whose \<open>Previous\<close> is
  \<open>/mem/cities/iiiii\<close>. And on a store that cannot save, the call fails though the
  reference resolves to an existing record.
\<close>

theorem Update_previous_is_not_the_prior_path:
  "GetPath [(''movies'', ''/mem/r3''), (''cities'', ''/mem/cities/iiiii/dataset.json'')]
       ''cities'' = Inr ''/mem/cities/iiiii/dataset.json''
   \<and> fst (GetDataset mem_env cities_mem ''/mem/cities/iiiii/dataset.json'') = Inr cities_ds
   \<and> DatasetRequests_Update mem_env cities_handler retitle_by_path empty_DatasetRef
     = Local (None,
         \<lparr>Name = ''cities'', Path = ''/mem/towns/iiiiii/dataset.json'', Dataset = Some towns_ds\<rparr>,
         \<lparr>repo = Some \<lparr>names = [(''movies'', ''/mem/r3''),
                                  (''cities'', ''/mem/towns/iiiiii/dataset.json'')],
                        backing = towns_mem\<rparr>,
          cli = None\<rparr>)
   \<and> Previous towns_ds = ''/mem/cities/iiiii''
   \<and> Previous towns_ds \<noteq> ''/mem/cities/iiiii/dataset.json''
   \<and> returned_error (DatasetRequests_Update unsavable_env cities_handler retitle_by_path
         empty_DatasetRef) = Some ''error saving dataset: disk full''"
  by code_simp

end
